theory Spec2Isabelle
  imports Complex_Main
begin

section \<open>The QEMU virtual machine controller of multipass\<close>

text \<open>
  A shallow embedding of \<^verbatim>\<open>src/platform/backends/qemu/qemu_virtual_machine.cpp\<close>.
  The file is written against Qt (\<^verbatim>\<open>QJsonObject\<close>, \<^verbatim>\<open>QJsonDocument\<close>, \<^verbatim>\<open>QString\<close>)
  and against collaborators of the daemon (the process, the status monitor). Qt's JSON
  classes are modelled in the first subsections; the collaborators are modelled by the
  trace of the calls made to them and by the values they hand back.
\<close>

subsection \<open>JSON values and objects (QJsonValue, QJsonObject)\<close>

text \<open>
  \<^verbatim>\<open>QJsonValue\<close> has the seven types of \<^verbatim>\<open>QJsonValue::Type\<close>. A JSON number is a
  double; every finite double is a rational number, and the model keeps the rational.
  A \<^verbatim>\<open>QString\<close> is modelled by the bytes of its UTF-8 form; the null \<^verbatim>\<open>QString()\<close>
  that \<^verbatim>\<open>toString()\<close> gives for a value that is not a string is \<open>None\<close>.
  A \<^verbatim>\<open>QJsonObject\<close> is the list of its entries, which Qt keeps sorted by key.
\<close>

datatype QJsonValue =
    JNull
  | JBool bool
  | JDouble rat
  | JString string
  | JArray "QJsonValue list"
  | JObject "(string \<times> QJsonValue) list"
  | JUndefined

type_synonym QJsonObject = "(string \<times> QJsonValue) list"

type_synonym QString = "string option"

definition contains_key :: "QJsonObject \<Rightarrow> string \<Rightarrow> bool" where
  \<comment> \<open>\<^verbatim>\<open>QJsonObject::contains\<close>\<close>
  "contains_key obj key = (map_of obj key \<noteq> None)"

definition value_of :: "QJsonObject \<Rightarrow> string \<Rightarrow> QJsonValue" where
  \<comment> \<open>\<^verbatim>\<open>QJsonObject::operator[] const\<close>: \<^verbatim>\<open>Undefined\<close> for a key that is absent\<close>
  "value_of obj key = (case map_of obj key of None \<Rightarrow> JUndefined | Some v \<Rightarrow> v)"

fun key_less :: "string \<Rightarrow> string \<Rightarrow> bool" where
  "key_less [] [] = False"
| "key_less [] (d # ds) = True"
| "key_less (c # cs) [] = False"
| "key_less (c # cs) (d # ds) =
     ((of_char c :: nat) < of_char d \<or> (c = d \<and> key_less cs ds))"

fun insert_entry :: "string \<Rightarrow> QJsonValue \<Rightarrow> QJsonObject \<Rightarrow> QJsonObject" where
  "insert_entry k v [] = [(k, v)]"
| "insert_entry k v ((k', v') # es) =
     (if k = k' then (k, v) # es
      else if key_less k k' then (k, v) # (k', v') # es
      else (k', v') # insert_entry k v es)"

definition remove_key :: "string \<Rightarrow> QJsonObject \<Rightarrow> QJsonObject" where
  "remove_key k obj = filter (\<lambda>e. fst e \<noteq> k) obj"

definition insert_value :: "string \<Rightarrow> QJsonValue \<Rightarrow> QJsonObject \<Rightarrow> QJsonObject" where
  \<comment> \<open>\<^verbatim>\<open>QJsonObject::insert\<close>: replaces the entry of an existing key; inserting
      \<^verbatim>\<open>Undefined\<close> removes the key\<close>
  "insert_value k v obj = (if v = JUndefined then remove_key k obj else insert_entry k v obj)"

definition value_ref :: "QJsonObject \<Rightarrow> string \<Rightarrow> QJsonValue \<times> QJsonObject" where
  \<comment> \<open>the non-const \<^verbatim>\<open>QJsonObject::operator[]\<close>: a key that is absent is first created
      with the value \<^verbatim>\<open>Null\<close>\<close>
  "value_ref obj key =
     (case map_of obj key of
        None \<Rightarrow> (JNull, insert_entry key JNull obj)
      | Some v \<Rightarrow> (v, obj))"

definition isNull :: "QJsonValue \<Rightarrow> bool" where
  "isNull v = (v = JNull)"

definition toBool :: "QJsonValue \<Rightarrow> bool" where
  "toBool v = (case v of JBool b \<Rightarrow> b | _ \<Rightarrow> False)"

definition toInt :: "QJsonValue \<Rightarrow> int" where
  \<comment> \<open>\<^verbatim>\<open>QJsonValue::toInt()\<close>: the number when it is whole and fits a 32-bit \<^verbatim>\<open>int\<close>,
      the default 0 otherwise\<close>
  "toInt v =
     (case v of
        JDouble d \<Rightarrow>
          (if of_int \<lfloor>d\<rfloor> = d \<and> - 2147483648 \<le> \<lfloor>d\<rfloor> \<and> \<lfloor>d\<rfloor> \<le> 2147483647
           then \<lfloor>d\<rfloor> else 0)
      | _ \<Rightarrow> 0)"

definition toString :: "QJsonValue \<Rightarrow> QString" where
  "toString v = (case v of JString s \<Rightarrow> Some s | _ \<Rightarrow> None)"

definition toObject :: "QJsonValue \<Rightarrow> QJsonObject" where
  "toObject v = (case v of JObject obj \<Rightarrow> obj | _ \<Rightarrow> [])"

definition from_QString :: "QString \<Rightarrow> QJsonValue" where
  \<comment> \<open>\<^verbatim>\<open>QJsonValue(const QString &)\<close>; a null string is stored as the empty string\<close>
  "from_QString s = JString (case s of None \<Rightarrow> [] | Some x \<Rightarrow> x)"

subsection \<open>Writing JSON (QJsonDocument::toJson)\<close>

text \<open>
  \<^verbatim>\<open>QJsonDocument::toJson()\<close> without an argument writes the \<^verbatim>\<open>Indented\<close> format:
  one entry per line, four spaces per level, a line feed after every brace. The model
  follows Qt's writer: \<open>terse\<close> is the flag that Qt's \<^verbatim>\<open>toJson(Compact)\<close> sets.
  Numbers never reach the writer in this program; whole numbers are written in decimal,
  other numbers as the quotient of two decimals.
\<close>

datatype QJsonDocument = NullDocument | ObjectDocument QJsonObject | ArrayDocument "QJsonValue list"

definition object :: "QJsonDocument \<Rightarrow> QJsonObject" where
  \<comment> \<open>\<^verbatim>\<open>QJsonDocument::object()\<close>: empty when the document is not an object\<close>
  "object doc = (case doc of ObjectDocument obj \<Rightarrow> obj | _ \<Rightarrow> [])"

definition hexdig :: "nat \<Rightarrow> char" where
  "hexdig u = (if u < 10 then char_of (48 + u) else char_of (87 + u))"

definition escaped_char :: "char \<Rightarrow> string" where
  "escaped_char c =
     (let u = (of_char c :: nat) in
      if u < 32 \<or> u = 34 \<or> u = 92 then
        CHR 0x5C #
          (if u = 34 then [CHR 0x22]
           else if u = 92 then [CHR 0x5C]
           else if u = 8 then ''b''
           else if u = 12 then ''f''
           else if u = 10 then ''n''
           else if u = 13 then ''r''
           else if u = 9 then ''t''
           else [CHR ''u'', CHR ''0'', CHR ''0'', hexdig (u div 16), hexdig (u mod 16)])
      else [c])"

definition escapedString :: "string \<Rightarrow> string" where
  "escapedString s = concat (map escaped_char s)"

fun decimal :: "nat \<Rightarrow> string" where
  "decimal n = (if n < 10 then [char_of (48 + n)] else decimal (n div 10) @ [char_of (48 + n mod 10)])"

definition number_text :: "rat \<Rightarrow> string" where
  "number_text d =
     (let (p, q) = quotient_of d;
          num = (if p < 0 then ''-'' else []) @ decimal (nat \<bar>p\<bar>)
      in if q = 1 then num else num @ ''/'' @ decimal (nat q))"

definition indentation :: "nat \<Rightarrow> string" where
  "indentation indent = replicate (4 * indent) CHR '' ''"

fun valueToJson :: "bool \<Rightarrow> nat \<Rightarrow> QJsonValue \<Rightarrow> string"
  and objectContentToJson :: "bool \<Rightarrow> nat \<Rightarrow> (string \<times> QJsonValue) list \<Rightarrow> string"
  and arrayContentToJson :: "bool \<Rightarrow> nat \<Rightarrow> QJsonValue list \<Rightarrow> string"
where
  "valueToJson terse indent JNull = ''null''"
| "valueToJson terse indent JUndefined = ''null''"
| "valueToJson terse indent (JBool b) = (if b then ''true'' else ''false'')"
| "valueToJson terse indent (JDouble d) = number_text d"
| "valueToJson terse indent (JString s) = CHR 0x22 # escapedString s @ [CHR 0x22]"
| "valueToJson terse indent (JArray vs) =
     (if terse then ''['' else [CHR ''['', CHR 0x0A])
     @ arrayContentToJson terse (indent + (if terse then 0 else 1)) vs
     @ indentation indent @ '']''"
| "valueToJson terse indent (JObject es) =
     (if terse then ''{'' else [CHR ''{'', CHR 0x0A])
     @ objectContentToJson terse (indent + (if terse then 0 else 1)) es
     @ indentation indent @ ''}''"
| "objectContentToJson terse indent [] = []"
| "objectContentToJson terse indent (e # es) =
     indentation indent @ CHR 0x22 # escapedString (fst e)
     @ (if terse then [CHR 0x22, CHR '':''] else [CHR 0x22, CHR '':'', CHR '' ''])
     @ valueToJson terse indent (snd e)
     @ (if es = [] then (if terse then [] else [CHR 0x0A])
        else (if terse then '','' else [CHR '','', CHR 0x0A])
             @ objectContentToJson terse indent es)"
| "arrayContentToJson terse indent [] = []"
| "arrayContentToJson terse indent (v # vs) =
     indentation indent @ valueToJson terse indent v
     @ (if vs = [] then (if terse then [] else [CHR 0x0A])
        else (if terse then '','' else [CHR '','', CHR 0x0A])
             @ arrayContentToJson terse indent vs)"

definition toJson_format :: "bool \<Rightarrow> QJsonDocument \<Rightarrow> string" where
  "toJson_format terse doc =
     (case doc of
        NullDocument \<Rightarrow> []
      | ObjectDocument obj \<Rightarrow>
          (if terse then ''{'' else [CHR ''{'', CHR 0x0A])
          @ objectContentToJson terse (if terse then 0 else 1) obj
          @ (if terse then ''}'' else [CHR ''}'', CHR 0x0A])
      | ArrayDocument vs \<Rightarrow>
          (if terse then ''['' else [CHR ''['', CHR 0x0A])
          @ arrayContentToJson terse (if terse then 0 else 1) vs
          @ (if terse then '']'' else [CHR '']'', CHR 0x0A]))"

definition toJson :: "QJsonDocument \<Rightarrow> string" where
  \<comment> \<open>\<^verbatim>\<open>toJson()\<close> is \<^verbatim>\<open>toJson(Indented)\<close>\<close>
  "toJson doc = toJson_format False doc"

subsection \<open>Reading JSON (QJsonDocument::fromJson)\<close>

text \<open>
  A recursive-descent reader for the JSON grammar, after Qt's parser: the document is
  an object or an array, white space is skipped between tokens, nothing but white space
  may follow the document, duplicate keys keep the last value, and a text that does not
  parse gives the null document. The recursion is bounded by the length of the text,
  since every call consumes a byte. An escape of a surrogate code unit and Qt's limit
  on the depth of nesting are outside the model: the first is read as a failure, the
  second is not applied.
\<close>

definition is_space :: "char \<Rightarrow> bool" where
  "is_space c = (c = CHR '' '' \<or> c = CHR 0x09 \<or> c = CHR 0x0A \<or> c = CHR 0x0D)"

definition eatSpace :: "string \<Rightarrow> string" where
  "eatSpace s = dropWhile is_space s"

definition hexval :: "char \<Rightarrow> nat option" where
  "hexval c =
     (let u = (of_char c :: nat) in
      if 48 \<le> u \<and> u \<le> 57 then Some (u - 48)
      else if 97 \<le> u \<and> u \<le> 102 then Some (u - 87)
      else if 65 \<le> u \<and> u \<le> 70 then Some (u - 55)
      else None)"

fun hex4 :: "string \<Rightarrow> nat option" where
  "hex4 [a, b, c, d] =
     (case (hexval a, hexval b, hexval c, hexval d) of
        (Some w, Some x, Some y, Some z) \<Rightarrow> Some (((w * 16 + x) * 16 + y) * 16 + z)
      | _ \<Rightarrow> None)"
| "hex4 _ = None"

definition utf8 :: "nat \<Rightarrow> string option" where
  "utf8 u =
     (if u < 128 then Some [char_of u]
      else if u < 2048 then Some [char_of (192 + u div 64), char_of (128 + u mod 64)]
      else if 55296 \<le> u \<and> u < 57344 then None
      else Some [char_of (224 + u div 4096), char_of (128 + (u div 64) mod 64),
                 char_of (128 + u mod 64)])"

definition unescape :: "char \<Rightarrow> char option" where
  "unescape e =
     (if e = CHR 0x22 then Some (CHR 0x22)
      else if e = CHR 0x5C then Some (CHR 0x5C)
      else if e = CHR ''/'' then Some (CHR ''/'')
      else if e = CHR ''b'' then Some (CHR 0x08)
      else if e = CHR ''f'' then Some (CHR 0x0C)
      else if e = CHR ''n'' then Some (CHR 0x0A)
      else if e = CHR ''r'' then Some (CHR 0x0D)
      else if e = CHR ''t'' then Some (CHR 0x09)
      else None)"

definition prepend :: "string \<Rightarrow> (string \<times> string) option \<Rightarrow> (string \<times> string) option" where
  "prepend bs r = map_option (\<lambda>(s, rest). (bs @ s, rest)) r"

fun parseString :: "string \<Rightarrow> (string \<times> string) option" where
  "parseString [] = None"
| "parseString (c # cs) =
     (if c = CHR 0x22 then Some ([], cs)
      else if c = CHR 0x5C then
        (case cs of
           [] \<Rightarrow> None
         | e # es \<Rightarrow>
             if e = CHR ''u'' then
               (case hex4 (take 4 es) of
                  None \<Rightarrow> None
                | Some u \<Rightarrow>
                    (case utf8 u of
                       None \<Rightarrow> None
                     | Some bs \<Rightarrow> prepend bs (parseString (drop 4 es))))
             else
               (case unescape e of
                  None \<Rightarrow> None
                | Some x \<Rightarrow> prepend [x] (parseString es)))
      else prepend [c] (parseString cs))"

definition is_digit :: "char \<Rightarrow> bool" where
  "is_digit c = (48 \<le> (of_char c :: nat) \<and> (of_char c :: nat) \<le> 57)"

definition digits_value :: "string \<Rightarrow> nat" where
  "digits_value ds = foldl (\<lambda>a c. 10 * a + (of_char c - 48)) 0 ds"

definition parseNumber :: "string \<Rightarrow> (rat \<times> string) option" where
  "parseNumber s =
     (let neg = (s \<noteq> [] \<and> hd s = CHR ''-'');
          s1 = (if neg then tl s else s);
          ip = (if s1 \<noteq> [] \<and> hd s1 = CHR ''0'' then ''0'' else takeWhile is_digit s1);
          s2 = drop (length ip) s1;
          has_frac = (s2 \<noteq> [] \<and> hd s2 = CHR ''.'');
          fp = (if has_frac then takeWhile is_digit (tl s2) else []);
          s3 = (if has_frac then drop (length fp) (tl s2) else s2);
          has_exp = (s3 \<noteq> [] \<and> (hd s3 = CHR ''e'' \<or> hd s3 = CHR ''E''));
          s4 = (if has_exp then tl s3 else s3);
          eneg = (has_exp \<and> s4 \<noteq> [] \<and> hd s4 = CHR ''-'');
          s5 = (if has_exp \<and> s4 \<noteq> [] \<and> (hd s4 = CHR ''-'' \<or> hd s4 = CHR ''+'') then tl s4 else s4);
          ep = (if has_exp then takeWhile is_digit s5 else []);
          s6 = drop (length ep) s5;
          mantissa = of_nat (digits_value ip) + of_nat (digits_value fp) / 10 ^ length fp;
          scaled = (if eneg then mantissa / 10 ^ digits_value ep
                    else mantissa * 10 ^ digits_value ep)
      in if ip = [] \<or> (has_frac \<and> fp = []) \<or> (has_exp \<and> ep = []) then None
         else Some (if neg then - scaled else scaled, s6))"

fun parseValue :: "nat \<Rightarrow> string \<Rightarrow> (QJsonValue \<times> string) option"
  and parseMembers :: "nat \<Rightarrow> string \<Rightarrow> (QJsonObject \<times> string) option"
  and parseElements :: "nat \<Rightarrow> string \<Rightarrow> (QJsonValue list \<times> string) option"
where
  "parseValue 0 s = None"
| "parseValue (Suc n) s =
     (case s of
        [] \<Rightarrow> None
      | c # cs \<Rightarrow>
          if c = CHR ''{'' then
            (if eatSpace cs \<noteq> [] \<and> hd (eatSpace cs) = CHR ''}''
             then Some (JObject [], tl (eatSpace cs))
             else map_option (\<lambda>(obj, rest). (JObject obj, rest)) (parseMembers n (eatSpace cs)))
          else if c = CHR ''['' then
            (if eatSpace cs \<noteq> [] \<and> hd (eatSpace cs) = CHR '']''
             then Some (JArray [], tl (eatSpace cs))
             else map_option (\<lambda>(vs, rest). (JArray vs, rest)) (parseElements n (eatSpace cs)))
          else if c = CHR 0x22 then
            map_option (\<lambda>(x, rest). (JString x, rest)) (parseString cs)
          else if take 4 s = ''true'' then Some (JBool True, drop 4 s)
          else if take 5 s = ''false'' then Some (JBool False, drop 5 s)
          else if take 4 s = ''null'' then Some (JNull, drop 4 s)
          else map_option (\<lambda>(d, rest). (JDouble d, rest)) (parseNumber s))"
| "parseMembers 0 s = None"
| "parseMembers (Suc n) s =
     (case s of
        [] \<Rightarrow> None
      | c # cs \<Rightarrow>
          if c \<noteq> CHR 0x22 then None
          else
            (case parseString cs of
               None \<Rightarrow> None
             | Some (key, s1) \<Rightarrow>
                 (case eatSpace s1 of
                    [] \<Rightarrow> None
                  | colon # s2 \<Rightarrow>
                      if colon \<noteq> CHR '':'' then None
                      else
                        (case parseValue n (eatSpace s2) of
                           None \<Rightarrow> None
                         | Some (v, s3) \<Rightarrow>
                             (case eatSpace s3 of
                                [] \<Rightarrow> None
                              | sep # s4 \<Rightarrow>
                                  if sep = CHR ''}'' then Some ([(key, v)], s4)
                                  else if sep = CHR '','' then
                                    map_option (\<lambda>(obj, rest). ((key, v) # obj, rest))
                                      (parseMembers n (eatSpace s4))
                                  else None)))))"
| "parseElements 0 s = None"
| "parseElements (Suc n) s =
     (case parseValue n s of
        None \<Rightarrow> None
      | Some (v, s1) \<Rightarrow>
          (case eatSpace s1 of
             [] \<Rightarrow> None
           | sep # s2 \<Rightarrow>
               if sep = CHR '']'' then Some ([v], s2)
               else if sep = CHR '','' then
                 map_option (\<lambda>(vs, rest). (v # vs, rest)) (parseElements n (eatSpace s2))
               else None))"

definition make_object :: "(string \<times> QJsonValue) list \<Rightarrow> QJsonObject" where
  \<comment> \<open>the entries in the order read; a later duplicate replaces an earlier one\<close>
  "make_object es = foldl (\<lambda>obj e. insert_entry (fst e) (snd e) obj) [] es"

fun normalise :: "QJsonValue \<Rightarrow> QJsonValue" where
  "normalise (JObject es) = JObject (make_object (map (\<lambda>e. (fst e, normalise (snd e))) es))"
| "normalise (JArray vs) = JArray (map normalise vs)"
| "normalise v = v"

definition fromJson :: "string \<Rightarrow> QJsonDocument" where
  "fromJson json =
     (case parseValue (Suc (length json)) (eatSpace json) of
        None \<Rightarrow> NullDocument
      | Some (v, rest) \<Rightarrow>
          if eatSpace rest \<noteq> [] then NullDocument
          else
            (case normalise v of
               JObject obj \<Rightarrow> ObjectDocument obj
             | JArray vs \<Rightarrow> ArrayDocument vs
             | _ \<Rightarrow> NullDocument))"

subsection \<open>Metadata: the command version\<close>

definition latest_vm_command_version :: int where
  "latest_vm_command_version = 1"

definition suspend_tag :: string where
  "suspend_tag = ''suspend''"

definition default_machine_type :: string where
  "default_machine_type = ''pc-i440fx-xenial''"

definition vm_command_version_key :: string where
  "vm_command_version_key = ''vm_command_version''"

definition machine_type_key :: string where
  "machine_type_key = ''machine_type''"

definition get_vm_command_version :: "QJsonObject \<Rightarrow> int" where
  "get_vm_command_version metadata =
     (if contains_key metadata vm_command_version_key
      then toInt (value_of metadata vm_command_version_key)
      else if contains_key metadata ''use_cdrom'' \<and> toBool (value_of metadata ''use_cdrom'')
      then 1
      else 0)"

subsection \<open>QMP commands\<close>

definition qmp_execute_json :: "string \<Rightarrow> string" where
  "qmp_execute_json cmd = toJson (ObjectDocument (insert_value ''execute'' (JString cmd) []))"

definition hmc_to_qmp_json :: "string \<Rightarrow> string" where
  "hmc_to_qmp_json command_line =
     (let qmp = object (fromJson (qmp_execute_json ''human-monitor-command''));
          cmd_line = insert_value ''command-line'' (JString command_line) [];
          qmp = insert_value ''arguments'' (JObject cmd_line) qmp
      in toJson (ObjectDocument qmp))"

subsection \<open>Strings (QString::split, QString::contains)\<close>

fun qsplit :: "char \<Rightarrow> string \<Rightarrow> string list" where
  \<comment> \<open>\<^verbatim>\<open>split(sep)\<close> keeps empty parts, so the result is never empty\<close>
  "qsplit sep [] = [[]]"
| "qsplit sep (c # cs) =
     (if c = sep then [] # qsplit sep cs
      else (case qsplit sep cs of [] \<Rightarrow> [[c]] | l # ls \<Rightarrow> (c # l) # ls))"

fun contains :: "string \<Rightarrow> string \<Rightarrow> bool" where
  "contains [] pat = (pat = [])"
| "contains (c # cs) pat = (take (length pat) (c # cs) = pat \<or> contains cs pat)"

fun any_line_contains :: "string list \<Rightarrow> string \<Rightarrow> bool" where
  \<comment> \<open>the loop of \<^verbatim>\<open>instance_image_has_snapshot\<close>\<close>
  "any_line_contains [] tag = False"
| "any_line_contains (line # rest) tag =
     (if contains line tag then True else any_line_contains rest tag)"

definition instance_image_has_snapshot :: "string \<Rightarrow> bool" where
  \<comment> \<open>the argument is what \<^verbatim>\<open>qemu-img snapshot -l <image>\<close> printed\<close>
  "instance_image_has_snapshot qemu_img_output =
     any_line_contains (qsplit (CHR 0x0A) qemu_img_output) suspend_tag"

subsection \<open>The machine type and the metadata written at a fresh start\<close>

record probe =
  \<comment> \<open>what \<^verbatim>\<open>get_qemu_machine_type\<close> finds on the host\<close>
  dump_file_opens :: bool
  dump_contents :: string

definition get_qemu_machine_type :: "probe \<Rightarrow> QString" where
  "get_qemu_machine_type host =
     (if \<not> dump_file_opens host then None
      else
        (let vmstate = object (fromJson (dump_contents host));
             machine = toObject (fst (value_ref vmstate ''vmschkmachine''))
         in toString (fst (value_ref machine ''Name''))))"

definition generate_metadata :: "probe \<Rightarrow> QJsonObject" where
  "generate_metadata host =
     (let metadata = insert_value machine_type_key (from_QString (get_qemu_machine_type host)) [];
          metadata = insert_value vm_command_version_key (JDouble (of_int latest_vm_command_version)) metadata
      in metadata)"

subsection \<open>The state of the controller\<close>

text \<open>
  Modelled from the spec: \<^verbatim>\<open>VirtualMachine::State\<close> is declared in a header that is not
  part of the sources at hand; the spec gives its values, and the source names each of them.
\<close>

datatype State =
  off | starting | running | delayed_shutdown | restarting | suspending | suspended | unknown

datatype Level = level_error | level_warning | level_info | level_debug

datatype exception = runtime_error string | StartException string string

text \<open>
  The collaborators (the log, the status monitor, the process, the condition variable)
  are seen through the calls made to them, kept in the order they are made.
\<close>

datatype effect =
    mpl_log Level string string
  | printf string
  | persist_state_for string State
  | monitor_on_resume
  | monitor_on_shutdown
  | monitor_on_suspend
  | monitor_on_restart string
  | retrieve_metadata_for string
  | update_metadata_for string QJsonObject
  | create_process int string string
  | process_start "string list"
  | process_wait_for_started
  | process_wait_for_finished
  | process_write string
  | process_kill
  | state_wait_notify_all

record Process =
  \<comment> \<open>what the process object answers: \<^verbatim>\<open>running()\<close>, \<^verbatim>\<open>working_directory()\<close>,
      \<^verbatim>\<open>program()\<close>, \<^verbatim>\<open>arguments()\<close>\<close>
  proc_running :: bool
  working_directory :: string
  program :: string
  arguments :: "string list"

record VirtualMachineDescription =
  desc_vm_name :: string
  image_path :: string
  cloud_init_iso :: string
  desc_mac_addr :: string
  ssh_username :: string

record QemuVirtualMachine =
  state :: State
  vm_name :: string
  vm_desc :: VirtualMachineDescription
  tap_device_name :: string
  mac_addr :: string
  username :: string
  cloud_init_path :: string
  vm_process :: "Process option"
  ip :: "string option"
  saved_error_msg :: string
  update_shutdown_status :: bool
  delete_memory_snapshot :: bool
  calls :: "effect list"

text \<open>
  A member function ends in one of four ways: it returns, it throws (the object keeps
  what was assigned before the throw), it blocks on \<^verbatim>\<open>state_wait\<close> until the state is
  \<open>off\<close>, or it dereferences \<^verbatim>\<open>vm_process\<close> while that pointer is still null.
\<close>

datatype 'a outcome = Returned 'a | Threw exception 'a | Waiting 'a | NullDereference

fun after :: "'a outcome \<Rightarrow> 'a option" where
  "after (Returned vm) = Some vm"
| "after (Threw e vm) = Some vm"
| "after (Waiting vm) = Some vm"
| "after NullDereference = None"

definition call :: "effect \<Rightarrow> QemuVirtualMachine \<Rightarrow> QemuVirtualMachine" where
  "call e vm = vm\<lparr>calls := calls vm @ [e]\<rparr>"

fun join :: "string \<Rightarrow> string list \<Rightarrow> string" where
  \<comment> \<open>\<^verbatim>\<open>QStringList::join\<close>\<close>
  "join sep [] = []"
| "join sep [x] = x"
| "join sep (x # y # ys) = x @ sep @ join sep (y # ys)"

definition show_int :: "int \<Rightarrow> string" where
  "show_int i = (if i < 0 then ''-'' @ decimal (nat (- i)) else decimal (nat i))"

subsection \<open>Construction\<close>

text \<open>
  Modelled from the spec: the in-class initialisers of \<^verbatim>\<open>update_shutdown_status\<close> and
  \<^verbatim>\<open>delete_memory_snapshot\<close> are in the absent header; the spec has the first true unless
  the controller ended the child itself, and the second true only after a resume.
  The host is seen through the output of \<^verbatim>\<open>qemu-img snapshot -l\<close> and through
  \<^verbatim>\<open>QFile::exists\<close>. The base class is initialised first, so the snapshot is looked for
  before the files are checked.
\<close>

record host =
  qemu_img_snapshot_output :: "string \<Rightarrow> string"
  file_exists :: "string \<Rightarrow> bool"

definition QemuVirtualMachine_new ::
  "host \<Rightarrow> VirtualMachineDescription \<Rightarrow> string \<Rightarrow> exception + QemuVirtualMachine" where
  "QemuVirtualMachine_new h desc tap =
     (let vm = \<lparr> state = (if instance_image_has_snapshot (qemu_img_snapshot_output h (image_path desc))
                           then suspended else off),
                  vm_name = desc_vm_name desc,
                  vm_desc = desc,
                  tap_device_name = tap,
                  mac_addr = desc_mac_addr desc,
                  username = ssh_username desc,
                  cloud_init_path = [],
                  vm_process = None,
                  ip = None,
                  saved_error_msg = [],
                  update_shutdown_status = True,
                  delete_memory_snapshot = False,
                  calls = [] \<rparr>
      in if \<not> file_exists h (image_path desc) \<or> \<not> file_exists h (cloud_init_iso desc)
         then Inl (runtime_error ''cannot start VM without an image'')
         else Inr vm)"

subsection \<open>Internal transitions\<close>

definition update_state :: "QemuVirtualMachine \<Rightarrow> QemuVirtualMachine" where
  "update_state vm = call (persist_state_for (vm_name vm) (state vm)) vm"

definition on_started :: "QemuVirtualMachine \<Rightarrow> QemuVirtualMachine" where
  "on_started vm = call monitor_on_resume (update_state (vm\<lparr>state := starting\<rparr>))"

definition on_error :: "QemuVirtualMachine \<Rightarrow> QemuVirtualMachine" where
  "on_error vm = update_state (vm\<lparr>state := off\<rparr>)"

definition on_shutdown_finish :: "QemuVirtualMachine \<Rightarrow> QemuVirtualMachine outcome" where
  \<comment> \<open>the statements of \<^verbatim>\<open>on_shutdown\<close> after the \<^verbatim>\<open>if\<close>\<close>
  "on_shutdown_finish vm = Returned (call monitor_on_shutdown (update_state (vm\<lparr>ip := None\<rparr>)))"

definition on_shutdown :: "QemuVirtualMachine \<Rightarrow> QemuVirtualMachine outcome" where
  "on_shutdown vm =
     (if state vm = starting
      then Waiting ((call (printf [CHR ''E'', CHR ''H'', CHR ''?'', CHR ''?'', CHR 0x0A]) vm)
                      \<lparr>saved_error_msg := vm_name vm @ '': shutdown called while starting''\<rparr>)
      else on_shutdown_finish (vm\<lparr>state := off\<rparr>))"

definition on_shutdown_wake :: "QemuVirtualMachine \<Rightarrow> QemuVirtualMachine outcome" where
  \<comment> \<open>the waiting \<^verbatim>\<open>on_shutdown\<close> when it is woken: the predicate \<^verbatim>\<open>state == State::off\<close>
      is tested again, and the wait goes on while it is false\<close>
  "on_shutdown_wake vm = (if state vm = off then on_shutdown_finish vm else Waiting vm)"

definition on_suspend :: "QemuVirtualMachine \<Rightarrow> QemuVirtualMachine" where
  "on_suspend vm = call monitor_on_suspend (vm\<lparr>state := suspended\<rparr>)"

definition on_restart :: "QemuVirtualMachine \<Rightarrow> QemuVirtualMachine" where
  "on_restart vm =
     call (monitor_on_restart (vm_name vm)) ((update_state (vm\<lparr>state := restarting\<rparr>))\<lparr>ip := None\<rparr>)"

definition ensure_vm_is_running :: "QemuVirtualMachine \<Rightarrow> QemuVirtualMachine outcome" where
  "ensure_vm_is_running vm =
     (case vm_process vm of
        None \<Rightarrow> NullDereference
      | Some p \<Rightarrow>
          if \<not> proc_running p
          then Threw (StartException (vm_name vm) (saved_error_msg vm))
                     (call state_wait_notify_all (vm\<lparr>state := off\<rparr>))
          else Returned vm)"

subsection \<open>Public operations\<close>

record start_inputs =
  \<comment> \<open>what the collaborators hand to \<^verbatim>\<open>start\<close>: the metadata the monitor retrieves, the
      host probed for the machine type, the process the factory creates, and whether
      \<^verbatim>\<open>wait_for_started\<close> succeeds\<close>
  retrieved_metadata :: QJsonObject
  probed :: probe
  created_process :: Process
  started :: bool

definition resume_args :: "QJsonObject \<Rightarrow> string \<Rightarrow> string \<Rightarrow> string list" where
  \<comment> \<open>the extra arguments of a resume; \<open>metadata\<close> is the object after the lookup of the
      machine type\<close>
  "resume_args metadata machine_type cloud_init =
     [''-loadvm'', suspend_tag, ''-machine'', machine_type]
     @ (if toBool (fst (value_ref metadata ''use_cdrom''))
        then [''-cdrom'', cloud_init]
        else [''-drive'', ''file='' @ cloud_init @ '',if=virtio,format=raw,snapshot=off,read-only''])"

definition start_resume ::
  "start_inputs \<Rightarrow> QemuVirtualMachine \<Rightarrow> int \<times> string list \<times> QemuVirtualMachine" where
  \<comment> \<open>the branch \<^verbatim>\<open>state == State::suspended\<close> of \<^verbatim>\<open>start\<close>\<close>
  "start_resume inp vm =
     (let vm = call (mpl_log level_info (vm_name vm) ''Resuming from a suspended state'') vm;
          vm = call (retrieve_metadata_for (vm_name vm)) vm;
          metadata = retrieved_metadata inp;
          version = get_vm_command_version metadata;
          looked_up = value_ref metadata machine_type_key;
          vm = (if toString (fst looked_up) = None
                then call (mpl_log level_info (vm_name vm)
                       (''Cannot determine QEMU machine type. Defaulting to '' @ [CHR 0x27]
                        @ default_machine_type @ [CHR 0x27] @ ''.'')) vm
                else vm);
          machine_type = (case toString (fst looked_up) of None \<Rightarrow> default_machine_type | Some t \<Rightarrow> t);
          vm = call (mpl_log level_info (vm_name vm) ''Resuming from a suspended state'') vm;
          extra_args = resume_args (snd looked_up) machine_type (cloud_init_path vm)
      in (version, extra_args, vm\<lparr>update_shutdown_status := True, delete_memory_snapshot := True\<rparr>))"

definition start_process ::
  "start_inputs \<Rightarrow> int \<Rightarrow> string list \<Rightarrow> QemuVirtualMachine \<Rightarrow> QemuVirtualMachine outcome" where
  \<comment> \<open>\<^verbatim>\<open>start\<close> from the creation of the process on\<close>
  "start_process inp version extra_args vm =
     (let p = created_process inp;
          vm = call (create_process version (tap_device_name vm) (mac_addr vm)) vm;
          vm = vm\<lparr>vm_process := Some p\<rparr>;
          vm = call (mpl_log level_debug (vm_name vm)
                 (''process working dir '' @ [CHR 0x27] @ working_directory p @ [CHR 0x27])) vm;
          vm = call (mpl_log level_info (vm_name vm)
                 (''process program '' @ [CHR 0x27] @ program p @ [CHR 0x27])) vm;
          vm = call (mpl_log level_info (vm_name vm)
                 (''process arguments '' @ [CHR 0x27] @ join '', '' (arguments p)
                  @ [CHR 0x27])) vm;
          vm = call (process_start extra_args) vm;
          vm = call process_wait_for_started vm
      in if \<not> started inp
         then Threw (runtime_error ''failed to start qemu instance'') vm
         else Returned (call (process_write (qmp_execute_json ''qmp_capabilities'')) vm))"

definition start :: "start_inputs \<Rightarrow> QemuVirtualMachine \<Rightarrow> QemuVirtualMachine outcome" where
  "start inp vm =
     (if state vm = running then Returned vm
      else if state vm = suspending
      then Threw (runtime_error ''cannot start the instance while suspending'') vm
      else if state vm = suspended
      then (case start_resume inp vm of
              (version, extra_args, vm') \<Rightarrow> start_process inp version extra_args vm')
      else start_process inp latest_vm_command_version []
             (call (update_metadata_for (vm_name vm) (generate_metadata (probed inp))) vm))"

definition shutdown_kill :: "QemuVirtualMachine \<Rightarrow> QemuVirtualMachine outcome" where
  \<comment> \<open>the last branch of \<^verbatim>\<open>shutdown\<close>\<close>
  "shutdown_kill vm =
     (let vm = (if state vm = starting then vm\<lparr>update_shutdown_status := False\<rparr> else vm)
      in case vm_process vm of
           None \<Rightarrow> NullDereference
         | Some p \<Rightarrow> Returned (call process_wait_for_finished (call process_kill vm)))"

definition shutdown :: "QemuVirtualMachine \<Rightarrow> QemuVirtualMachine outcome" where
  "shutdown vm =
     (if state vm = suspended
      then Returned (call (mpl_log level_info (vm_name vm) ''Ignoring shutdown issued while suspended'') vm)
      else if state vm = running \<or> state vm = delayed_shutdown \<or> state vm = unknown
      then (case vm_process vm of
              None \<Rightarrow> NullDereference
            | Some p \<Rightarrow>
                if proc_running p
                then Returned (call process_wait_for_finished
                                (call (process_write (qmp_execute_json ''system_powerdown'')) vm))
                else shutdown_kill vm)
      else shutdown_kill vm)"

definition stop :: "QemuVirtualMachine \<Rightarrow> QemuVirtualMachine outcome" where
  "stop vm = shutdown vm"

definition suspend_otherwise :: "QemuVirtualMachine \<Rightarrow> QemuVirtualMachine outcome" where
  \<comment> \<open>the \<^verbatim>\<open>else if\<close> of \<^verbatim>\<open>suspend\<close>\<close>
  "suspend_otherwise vm =
     (if state vm = off \<or> state vm = suspended
      then Returned (call monitor_on_suspend
             (call (mpl_log level_info (vm_name vm) ''Ignoring suspend issued while stopped/suspended'') vm))
      else Returned vm)"

definition suspend :: "QemuVirtualMachine \<Rightarrow> QemuVirtualMachine outcome" where
  "suspend vm =
     (if state vm = running \<or> state vm = delayed_shutdown
      then (case vm_process vm of
              None \<Rightarrow> NullDereference
            | Some p \<Rightarrow>
                if proc_running p
                then (let vm = call (process_write (hmc_to_qmp_json (''savevm '' @ suspend_tag))) vm
                      in if update_shutdown_status vm
                         then Returned (call process_wait_for_finished
                                ((update_state (vm\<lparr>state := suspending\<rparr>))
                                   \<lparr>update_shutdown_status := False\<rparr>))
                         else Returned vm)
                else suspend_otherwise vm)
      else suspend_otherwise vm)"

definition current_state :: "QemuVirtualMachine \<Rightarrow> State" where
  "current_state vm = state vm"

definition ssh_port :: "QemuVirtualMachine \<Rightarrow> int" where
  "ssh_port vm = 22"

definition ipv4 :: "string option \<Rightarrow> QemuVirtualMachine \<Rightarrow> string \<times> QemuVirtualMachine" where
  \<comment> \<open>the first argument is what \<^verbatim>\<open>dnsmasq_server->get_ip_for(mac_addr)\<close> answers\<close>
  "ipv4 lease vm =
     (case ip vm of
        Some a \<Rightarrow> (a, vm)
      | None \<Rightarrow>
          (case lease of
             Some a \<Rightarrow> (a, vm\<lparr>ip := Some a\<rparr>)
           | None \<Rightarrow> (''UNKNOWN'', vm)))"

subsection \<open>The handlers connected to the process\<close>

definition handle_started :: "QemuVirtualMachine \<Rightarrow> QemuVirtualMachine" where
  "handle_started vm = on_started (call (mpl_log level_info (vm_name vm) ''process started'') vm)"

definition qmp_event :: "string \<Rightarrow> QJsonValue" where
  \<comment> \<open>\<^verbatim>\<open>qmp_object["event"]\<close> for the first line of what was read\<close>
  "qmp_event qmp_output =
     fst (value_ref (object (fromJson (hd (qsplit (CHR 0x0A) qmp_output)))) ''event'')"

definition handle_event :: "QJsonValue \<Rightarrow> QemuVirtualMachine \<Rightarrow> QemuVirtualMachine outcome" where
  "handle_event event vm =
     (if \<not> isNull event then
        (if toString event = Some ''RESET'' \<and> state vm \<noteq> restarting
         then Returned (on_restart (call (mpl_log level_info (vm_name vm) ''VM restarting'') vm))
         else if toString event = Some ''POWERDOWN''
         then Returned (call (mpl_log level_info (vm_name vm) ''VM powering down'') vm)
         else if toString event = Some ''SHUTDOWN''
         then Returned (call (mpl_log level_info (vm_name vm) ''VM shut down'') vm)
         else if toString event = Some ''STOP''
         then Returned (call (mpl_log level_info (vm_name vm) ''VM suspending'') vm)
         else if toString event = Some ''RESUME''
         then (let vm = call (mpl_log level_info (vm_name vm) ''VM suspended'') vm
               in if state vm = suspending \<or> state vm = running
                  then (case vm_process vm of
                          None \<Rightarrow> NullDereference
                        | Some p \<Rightarrow> Returned (on_suspend (call process_kill vm)))
                  else Returned vm)
         else Returned vm)
      else Returned vm)"

definition handle_ready_read_standard_output ::
  "string \<Rightarrow> QemuVirtualMachine \<Rightarrow> QemuVirtualMachine outcome" where
  \<comment> \<open>the argument is what \<^verbatim>\<open>read_all_standard_output()\<close> returns\<close>
  "handle_ready_read_standard_output qmp_output vm =
     handle_event (qmp_event qmp_output)
       (call (mpl_log level_debug (vm_name vm) (''QMP: '' @ qmp_output)) vm)"

definition handle_ready_read_standard_error ::
  "string \<Rightarrow> QemuVirtualMachine \<Rightarrow> QemuVirtualMachine" where
  \<comment> \<open>\<^verbatim>\<open>.data()\<close> is a C string: the message ends at the first zero byte\<close>
  "handle_ready_read_standard_error err vm =
     (let vm = vm\<lparr>saved_error_msg := takeWhile (\<lambda>c. c \<noteq> CHR 0x00) err\<rparr>
      in call (mpl_log level_warning (vm_name vm) (saved_error_msg vm)) vm)"

definition handle_state_changed :: "string \<Rightarrow> QemuVirtualMachine \<Rightarrow> QemuVirtualMachine" where
  \<comment> \<open>the argument is the name of the new process state\<close>
  "handle_state_changed new_state vm =
     call (mpl_log level_info (vm_name vm) (''process state changed to '' @ new_state)) vm"

definition handle_error_occurred :: "string \<Rightarrow> QemuVirtualMachine \<Rightarrow> QemuVirtualMachine" where
  \<comment> \<open>the argument is the name of the process error\<close>
  "handle_error_occurred err vm =
     (if update_shutdown_status vm
      then on_error (call (mpl_log level_error (vm_name vm) (''process error occurred '' @ err)) vm)
      else vm)"

definition handle_finished ::
  "int \<Rightarrow> string \<Rightarrow> QemuVirtualMachine \<Rightarrow> QemuVirtualMachine outcome" where
  \<comment> \<open>the arguments are the exit code and the name of the exit status\<close>
  "handle_finished exit_code exit_status vm =
     (let vm = call (mpl_log level_info (vm_name vm)
                 (''process finished with exit code '' @ show_int exit_code
                  @ '' ('' @ exit_status @ '')'')) vm
      in if update_shutdown_status vm \<or> state vm = starting
         then on_shutdown vm
         else Returned vm)"

subsection \<open>Every operation and handler\<close>

text \<open>
  The operations and handlers above, as one step function. \<^verbatim>\<open>ssh_hostname\<close> and
  \<^verbatim>\<open>wait_until_ssh_up\<close> act on the state through \<^verbatim>\<open>ensure_vm_is_running\<close> only, inside
  retry helpers that are not among the sources; the destructor calls \<^verbatim>\<open>suspend\<close> or
  \<^verbatim>\<open>shutdown\<close>. A handler that waits in \<^verbatim>\<open>on_shutdown\<close> goes on with the step
  \<open>Woken_in_on_shutdown\<close>.
\<close>

datatype operation =
    Start start_inputs
  | Stop
  | Shutdown
  | Suspend
  | Current_state
  | Ssh_port
  | Ipv4 "string option"
  | Update_state
  | Ensure_vm_is_running
  | Process_started
  | Ready_read_standard_output string
  | Ready_read_standard_error string
  | Process_state_changed string
  | Process_error_occurred string
  | Process_finished int string
  | Woken_in_on_shutdown

fun run :: "operation \<Rightarrow> QemuVirtualMachine \<Rightarrow> QemuVirtualMachine outcome" where
  "run (Start inp) vm = start inp vm"
| "run Stop vm = stop vm"
| "run Shutdown vm = shutdown vm"
| "run Suspend vm = suspend vm"
| "run Current_state vm = Returned vm"
| "run Ssh_port vm = Returned vm"
| "run (Ipv4 lease) vm = Returned (snd (ipv4 lease vm))"
| "run Update_state vm = Returned (update_state vm)"
| "run Ensure_vm_is_running vm = ensure_vm_is_running vm"
| "run Process_started vm = Returned (handle_started vm)"
| "run (Ready_read_standard_output out) vm = handle_ready_read_standard_output out vm"
| "run (Ready_read_standard_error err) vm = Returned (handle_ready_read_standard_error err vm)"
| "run (Process_state_changed s) vm = Returned (handle_state_changed s vm)"
| "run (Process_error_occurred e) vm = Returned (handle_error_occurred e vm)"
| "run (Process_finished code status) vm = handle_finished code status vm"
| "run Woken_in_on_shutdown vm = on_shutdown_wake vm"

subsection \<open>What the spec calls a single line\<close>

definition single_line :: "string \<Rightarrow> bool" where
  \<comment> \<open>after the spec's words: a text of one line has no line feed before its last byte\<close>
  "single_line text = (CHR 0x0A \<notin> set (butlast text))"

subsection \<open>Sample values\<close>

definition example_desc :: VirtualMachineDescription where
  "example_desc = \<lparr> desc_vm_name = ''primary'', image_path = ''/var/img/primary.img'',
     cloud_init_iso = ''/var/img/cloud-init.iso'', desc_mac_addr = ''52:54:00:aa:bb:cc'',
     ssh_username = ''ubuntu'' \<rparr>"

definition example_host :: host where
  \<comment> \<open>both files are there, and the image holds a snapshot with the tag \<^verbatim>\<open>suspend\<close>\<close>
  "example_host = \<lparr> qemu_img_snapshot_output =
       (\<lambda>path. ''Snapshot list:'' @ [CHR 0x0A] @ ''ID TAG VM SIZE'' @ [CHR 0x0A]
                @ ''1 suspend 104M'' @ [CHR 0x0A]),
     file_exists = (\<lambda>path. path = ''/var/img/primary.img'' \<or> path = ''/var/img/cloud-init.iso'') \<rparr>"

definition example_host_without_snapshot :: host where
  \<comment> \<open>both files are there, and the image holds no snapshot\<close>
  "example_host_without_snapshot = \<lparr> qemu_img_snapshot_output = (\<lambda>path. []),
     file_exists = (\<lambda>path. path = ''/var/img/primary.img'' \<or> path = ''/var/img/cloud-init.iso'') \<rparr>"

definition example_host_without_iso :: host where
  "example_host_without_iso = \<lparr> qemu_img_snapshot_output = (\<lambda>path. []),
     file_exists = (\<lambda>path. path = ''/var/img/primary.img'') \<rparr>"

definition example_process :: Process where
  "example_process = \<lparr> proc_running = True, working_directory = ''/'',
     program = ''qemu-system-x86_64'', arguments = [''-nographic''] \<rparr>"

definition example_vm :: QemuVirtualMachine where
  \<comment> \<open>a running machine whose address is known\<close>
  "example_vm = \<lparr> state = running, vm_name = ''primary'', vm_desc = example_desc,
     tap_device_name = ''tap-0'', mac_addr = ''52:54:00:aa:bb:cc'', username = ''ubuntu'',
     cloud_init_path = [], vm_process = Some example_process, ip = Some ''10.122.5.7'',
     saved_error_msg = [], update_shutdown_status = True, delete_memory_snapshot = False,
     calls = [] \<rparr>"

definition example_inputs :: start_inputs where
  \<comment> \<open>a start whose child does not come up\<close>
  "example_inputs = \<lparr> retrieved_metadata = [(''use_cdrom'', JBool True)],
     probed = \<lparr> dump_file_opens = False, dump_contents = [] \<rparr>,
     created_process = example_process, started = False \<rparr>"

section \<open>Properties\<close>

declare decimal.simps [simp del]

subsection \<open>Helper lemmas\<close>

lemma contains_iff: "contains s pat = (\<exists>pre suf. s = pre @ pat @ suf)"
proof (induction s)
  case Nil
  then show ?case by auto
next
  case (Cons c cs)
  show ?case
  proof
    assume "contains (c # cs) pat"
    then consider "take (length pat) (c # cs) = pat" | "contains cs pat" by auto
    then show "\<exists>pre suf. c # cs = pre @ pat @ suf"
    proof cases
      case 1
      then have "c # cs = [] @ pat @ drop (length pat) (c # cs)"
        by (metis append_Nil append_take_drop_id)
      then show ?thesis by blast
    next
      case 2
      then obtain pre suf where "cs = pre @ pat @ suf" using Cons.IH by blast
      then have "c # cs = (c # pre) @ pat @ suf" by simp
      then show ?thesis by blast
    qed
  next
    assume "\<exists>pre suf. c # cs = pre @ pat @ suf"
    then obtain pre suf where e: "c # cs = pre @ pat @ suf" by blast
    show "contains (c # cs) pat"
    proof (cases pre)
      case Nil
      then have "take (length pat) (c # cs) = pat"
        using e by (metis append_Nil append_eq_conv_conj)
      then show ?thesis by simp
    next
      case (Cons a pre')
      then have "cs = pre' @ pat @ suf" using e by simp
      then have "contains cs pat" using Cons.IH by blast
      then show ?thesis by simp
    qed
  qed
qed

lemma any_line_contains_iff: "any_line_contains ls tag = (\<exists>l \<in> set ls. contains l tag)"
  by (induction ls) auto

text \<open>The parts that \<open>qsplit\<close> gives are the lines: joined by the separator they give
  the text back, and none of them holds a separator.\<close>

lemma qsplit_nonempty: "qsplit sep s \<noteq> []"
  by (induction s) (auto split: list.splits)

lemma join_Cons: "join sep ((c # l) # ls) = c # join sep (l # ls)"
  by (cases ls) simp_all

lemma qsplit_join: "join [sep] (qsplit sep s) = s"
proof (induction s)
  case Nil
  then show ?case by simp
next
  case (Cons c cs)
  obtain l ls where parts: "qsplit sep cs = l # ls"
    using qsplit_nonempty [of sep cs] by (cases "qsplit sep cs") auto
  show ?case
  proof (cases "c = sep")
    case True
    then show ?thesis using Cons.IH parts by simp
  next
    case False
    then show ?thesis using Cons.IH parts by (simp add: join_Cons)
  qed
qed

lemma qsplit_no_separator: "l \<in> set (qsplit sep s) \<Longrightarrow> sep \<notin> set l"
proof (induction s arbitrary: l)
  case Nil
  then show ?case by simp
next
  case (Cons c cs)
  obtain m ms where parts: "qsplit sep cs = m # ms"
    using qsplit_nonempty [of sep cs] by (cases "qsplit sep cs") auto
  have inner: "sep \<notin> set x" if "x \<in> set (m # ms)" for x
    using Cons.IH that parts by simp
  show ?case
  proof (cases "c = sep")
    case True
    then have "l = [] \<or> l \<in> set (m # ms)" using Cons.prems parts by auto
    then show ?thesis using inner by auto
  next
    case False
    then have "l = c # m \<or> l \<in> set ms" using Cons.prems parts by auto
    then show ?thesis using inner False by auto
  qed
qed

lemma example_lines:
  "qsplit (CHR 0x0A) (qemu_img_snapshot_output example_host (image_path example_desc))
     = [''Snapshot list:'', ''ID TAG VM SIZE'', ''1 suspend 104M'', []]"
  by (simp add: example_host_def)

lemma example_construction:
  "QemuVirtualMachine_new example_host example_desc ''tap-0''
     = Inr (example_vm\<lparr>state := suspended, vm_process := None, ip := None\<rparr>)"
  by (simp add: QemuVirtualMachine_new_def instance_image_has_snapshot_def example_lines
      suspend_tag_def example_vm_def)
     (simp add: example_host_def example_desc_def)

lemma show_int_zero: "show_int 0 = ''0''"
  by code_simp

lemma call_fields:
  "state (call e vm) = state vm" "ip (call e vm) = ip vm" "vm_name (call e vm) = vm_name vm"
  "vm_process (call e vm) = vm_process vm"
  "update_shutdown_status (call e vm) = update_shutdown_status vm"
  by (simp_all add: call_def)

lemma on_shutdown_acts: "on_shutdown vm \<noteq> Returned vm"
proof
  assume a: "on_shutdown vm = Returned vm"
  show False
  proof (cases "state vm = starting")
    case True
    then show False using a by (simp add: on_shutdown_def)
  next
    case False
    then have "vm\<lparr>state := off, ip := None,
        calls := calls vm @ [persist_state_for (vm_name vm) off, monitor_on_shutdown]\<rparr> = vm"
      using a by (simp add: on_shutdown_def on_shutdown_finish_def update_state_def call_def)
    then have "calls (vm\<lparr>state := off, ip := None,
        calls := calls vm @ [persist_state_for (vm_name vm) off, monitor_on_shutdown]\<rparr>) = calls vm"
      by simp
    then show False by simp
  qed
qed

lemma start_process_keeps_state:
  "after (start_process inp version extra_args vm) = Some vm' \<Longrightarrow>
     state vm' = state vm \<and> ip vm' = ip vm"
  by (cases "started inp") (auto simp: start_process_def Let_def call_fields)

lemma start_resume_keeps_state:
  "start_resume inp vm = (version, extra_args, vm') \<Longrightarrow> state vm' = state vm \<and> ip vm' = ip vm"
  by (cases "toString (fst (value_ref (retrieved_metadata inp) machine_type_key)) = None")
     (auto simp: start_resume_def Let_def call_fields)

lemma start_keeps_state:
  "after (start inp vm) = Some vm' \<Longrightarrow> state vm' = state vm \<and> ip vm' = ip vm"
proof -
  assume a: "after (start inp vm) = Some vm'"
  consider "state vm = running" | "state vm = suspending" | "state vm = suspended"
    | "state vm \<noteq> running \<and> state vm \<noteq> suspending \<and> state vm \<noteq> suspended" by blast
  then show ?thesis
  proof cases
    case 1
    then show ?thesis using a by (simp add: start_def)
  next
    case 2
    then show ?thesis using a by (simp add: start_def)
  next
    case 3
    obtain version extra_args vm1 where r: "start_resume inp vm = (version, extra_args, vm1)"
      by (cases "start_resume inp vm") auto
    then have "after (start_process inp version extra_args vm1) = Some vm'"
      using a 3 by (simp add: start_def)
    then show ?thesis
      using start_process_keeps_state start_resume_keeps_state [OF r] by fastforce
  next
    case 4
    then have "after (start_process inp latest_vm_command_version []
        (call (update_metadata_for (vm_name vm) (generate_metadata (probed inp))) vm)) = Some vm'"
      using a by (simp add: start_def)
    then show ?thesis
      using start_process_keeps_state call_fields by fastforce
  qed
qed

lemma shutdown_keeps_state:
  "after (shutdown vm) = Some vm' \<Longrightarrow> state vm' = state vm \<and> ip vm' = ip vm"
  by (auto simp: shutdown_def shutdown_kill_def call_def Let_def split: if_splits option.splits)

lemma suspend_state:
  "after (suspend vm) = Some vm' \<Longrightarrow>
     (state vm' = state vm \<or> state vm' = suspending) \<and> ip vm' = ip vm"
  by (auto simp: suspend_def suspend_otherwise_def update_state_def call_def Let_def
      split: if_splits option.splits)

lemma ensure_state:
  "after (ensure_vm_is_running vm) = Some vm' \<Longrightarrow>
     (state vm' = state vm \<or> state vm' = off) \<and> ip vm' = ip vm"
  by (auto simp: ensure_vm_is_running_def call_def split: if_splits option.splits)

lemma error_occurred_state:
  "(state (handle_error_occurred e vm) = state vm \<or> state (handle_error_occurred e vm) = off)
     \<and> ip (handle_error_occurred e vm) = ip vm"
  by (simp add: handle_error_occurred_def on_error_def update_state_def call_def)

lemma event_state:
  "after (handle_event ev vm) = Some vm' \<Longrightarrow>
     state vm' = state vm \<or> state vm' = suspended \<or> (state vm' = restarting \<and> ip vm' = None)"
  by (auto simp: handle_event_def on_restart_def on_suspend_def update_state_def call_def Let_def
      split: if_splits option.splits)

lemma stdout_state:
  "after (handle_ready_read_standard_output out vm) = Some vm' \<Longrightarrow>
     state vm' = state vm \<or> state vm' = suspended \<or> (state vm' = restarting \<and> ip vm' = None)"
  unfolding handle_ready_read_standard_output_def
  by (drule event_state) (simp add: call_def)

lemma finished_state:
  "after (handle_finished code status vm) = Some vm' \<Longrightarrow>
     state vm' = state vm \<or> (state vm' = off \<and> ip vm' = None)"
  by (auto simp: handle_finished_def on_shutdown_def on_shutdown_finish_def update_state_def
      call_def Let_def split: if_splits)

lemma wake_state:
  "after (on_shutdown_wake vm) = Some vm' \<Longrightarrow> state vm' = state vm"
  by (auto simp: on_shutdown_wake_def on_shutdown_finish_def update_state_def call_def
      split: if_splits)

subsection \<open>The cached address on the way into restarting and off\<close>

text \<open>
  C1, as the code has it. The claim reads: after any transition of the state into
  \<open>restarting\<close> or \<open>off\<close>, by any operation or handler, the cached address is empty.
  The code clears the address in \<^verbatim>\<open>on_restart\<close> and in \<^verbatim>\<open>on_shutdown\<close>. What holds is:
  whenever an operation or handler other than the handler of a process error changes the
  state into \<open>restarting\<close> or \<open>off\<close>, the address is empty afterwards, except in
  \<^verbatim>\<open>ensure_vm_is_running\<close>, which sets \<open>off\<close> for the sake of the waiting \<^verbatim>\<open>on_shutdown\<close>
  and leaves the address as it was (\<^verbatim>\<open>on_shutdown\<close> clears it once it is woken).
\<close>

theorem ip_cleared_on_restart_and_shutdown:
  assumes "after (run op vm) = Some vm'"
    and "state vm' \<noteq> state vm"
    and "state vm' = off \<or> state vm' = restarting"
  shows "ip vm' = None
         \<or> (\<exists>e. op = Process_error_occurred e)
         \<or> (op = Ensure_vm_is_running \<and> state vm' = off \<and> ip vm' = ip vm)"
proof (cases op)
  case (Start inp)
  then show ?thesis using assms start_keeps_state by auto
next
  case Stop
  then show ?thesis using assms shutdown_keeps_state by (auto simp: stop_def)
next
  case Shutdown
  then show ?thesis using assms shutdown_keeps_state by auto
next
  case Suspend
  then show ?thesis using assms suspend_state [of vm vm'] by auto
next
  case Current_state
  then show ?thesis using assms by auto
next
  case Ssh_port
  then show ?thesis using assms by auto
next
  case (Ipv4 lease)
  then show ?thesis using assms by (auto simp: ipv4_def split: option.splits)
next
  case Update_state
  then show ?thesis using assms by (auto simp: update_state_def call_def)
next
  case Ensure_vm_is_running
  then show ?thesis using assms ensure_state [of vm vm'] by auto
next
  case Process_started
  then show ?thesis using assms
    by (auto simp: handle_started_def on_started_def update_state_def call_def)
next
  case (Ready_read_standard_output out)
  then show ?thesis using assms stdout_state [of out vm vm'] by auto
next
  case (Ready_read_standard_error err)
  then show ?thesis using assms
    by (auto simp: handle_ready_read_standard_error_def call_def Let_def)
next
  case (Process_state_changed s)
  then show ?thesis using assms by (auto simp: handle_state_changed_def call_def)
next
  case (Process_error_occurred e)
  then show ?thesis using assms error_occurred_state [of e vm] by auto
next
  case (Process_finished code status)
  then show ?thesis using assms finished_state [of code status vm vm'] by auto
next
  case Woken_in_on_shutdown
  then show ?thesis using assms wake_state [of vm vm'] by auto
qed

text \<open>
  The theorem at the exit of the child of a running machine: the state becomes \<open>off\<close>
  and the address is cleared.
\<close>

theorem ip_cleared_on_restart_and_shutdown_witness:
  "after (run (Process_finished 0 ''NormalExit'') example_vm)
     = Some (example_vm\<lparr>state := off, ip := None,
          calls := [mpl_log level_info ''primary'' ''process finished with exit code 0 (NormalExit)'',
                    persist_state_for ''primary'' off, monitor_on_shutdown]\<rparr>)
   \<and> state (example_vm\<lparr>state := off, ip := None,
          calls := [mpl_log level_info ''primary'' ''process finished with exit code 0 (NormalExit)'',
                    persist_state_for ''primary'' off, monitor_on_shutdown]\<rparr>) \<noteq> state example_vm
   \<and> ip (example_vm\<lparr>state := off, ip := None,
          calls := [mpl_log level_info ''primary'' ''process finished with exit code 0 (NormalExit)'',
                    persist_state_for ''primary'' off, monitor_on_shutdown]\<rparr>) = None"
proof -
  have ran: "after (run (Process_finished 0 ''NormalExit'') example_vm)
     = Some (example_vm\<lparr>state := off, ip := None,
          calls := [mpl_log level_info ''primary'' ''process finished with exit code 0 (NormalExit)'',
                    persist_state_for ''primary'' off, monitor_on_shutdown]\<rparr>)"
    by (simp add: handle_finished_def on_shutdown_def on_shutdown_finish_def update_state_def
        call_def show_int_zero example_vm_def)
  have changed: "state (example_vm\<lparr>state := off, ip := None,
          calls := [mpl_log level_info ''primary'' ''process finished with exit code 0 (NormalExit)'',
                    persist_state_for ''primary'' off, monitor_on_shutdown]\<rparr>) \<noteq> state example_vm"
    by (simp add: example_vm_def)
  show ?thesis
    using ip_cleared_on_restart_and_shutdown [OF ran changed] ran changed by simp
qed

text \<open>
  The claim as written fails at a process error of a running machine whose address is
  known: the state becomes \<open>off\<close> and the address stays.
\<close>

theorem error_keeps_ip_counterexample:
  "after (run (Process_error_occurred ''Crashed'') example_vm)
     = Some (example_vm\<lparr>state := off,
          calls := [mpl_log level_error ''primary'' ''process error occurred Crashed'',
                    persist_state_for ''primary'' off]\<rparr>)
   \<and> state example_vm = running
   \<and> state (example_vm\<lparr>state := off,
          calls := [mpl_log level_error ''primary'' ''process error occurred Crashed'',
                    persist_state_for ''primary'' off]\<rparr>) = off
   \<and> ip (example_vm\<lparr>state := off,
          calls := [mpl_log level_error ''primary'' ''process error occurred Crashed'',
                    persist_state_for ''primary'' off]\<rparr>) = Some ''10.122.5.7''"
  by (simp add: example_vm_def handle_error_occurred_def on_error_def update_state_def call_def)

subsection \<open>The exit of the child\<close>

text \<open>
  C3. When the process finishes, \<^verbatim>\<open>on_shutdown\<close> runs exactly when
  \<^verbatim>\<open>update_shutdown_status\<close> is set or the state is \<open>starting\<close> (and it never leaves the
  object as it found it). In \<^verbatim>\<open>on_shutdown\<close>, a machine that is \<open>starting\<close> gets the message
  "<name>: shutdown called while starting" in \<^verbatim>\<open>saved_error_msg\<close> and waits; the wait
  goes on while the state is not \<open>off\<close>, and ends once it is. Any other machine is set to
  \<open>off\<close>. Either way the address is then cleared, the state is persisted, and after that
  the monitor's \<^verbatim>\<open>on_shutdown\<close> is called.
\<close>

theorem finished_and_on_shutdown:
  "(\<not> update_shutdown_status vm \<and> state vm \<noteq> starting \<longrightarrow>
      handle_finished code status vm =
        Returned (vm\<lparr>calls := calls vm @ [mpl_log level_info (vm_name vm)
           (''process finished with exit code '' @ show_int code @ '' ('' @ status @ '')'')]\<rparr>))
   \<and> (update_shutdown_status vm \<or> state vm = starting \<longrightarrow>
      handle_finished code status vm =
        on_shutdown (vm\<lparr>calls := calls vm @ [mpl_log level_info (vm_name vm)
           (''process finished with exit code '' @ show_int code @ '' ('' @ status @ '')'')]\<rparr>))
   \<and> on_shutdown vm \<noteq> Returned vm
   \<and> (state vm = starting \<longrightarrow>
      on_shutdown vm = Waiting (vm\<lparr>saved_error_msg := vm_name vm @ '': shutdown called while starting'',
         calls := calls vm @ [printf [CHR ''E'', CHR ''H'', CHR ''?'', CHR ''?'', CHR 0x0A]]\<rparr>))
   \<and> (state vm \<noteq> off \<longrightarrow> on_shutdown_wake vm = Waiting vm)
   \<and> (state vm = off \<longrightarrow>
      on_shutdown_wake vm = Returned (vm\<lparr>ip := None,
         calls := calls vm @ [persist_state_for (vm_name vm) off, monitor_on_shutdown]\<rparr>))
   \<and> (state vm \<noteq> starting \<longrightarrow>
      on_shutdown vm = Returned (vm\<lparr>state := off, ip := None,
         calls := calls vm @ [persist_state_for (vm_name vm) off, monitor_on_shutdown]\<rparr>))"
  using on_shutdown_acts [of vm]
  by (auto simp: handle_finished_def on_shutdown_def on_shutdown_wake_def on_shutdown_finish_def
        update_state_def call_def Let_def)

text \<open>
  The theorem at three machines: one running, one starting, and one whose child the
  controller ended itself.
\<close>

theorem finished_and_on_shutdown_witness:
  "handle_finished 0 ''NormalExit'' example_vm
     = Returned (example_vm\<lparr>state := off, ip := None,
          calls := [mpl_log level_info ''primary'' ''process finished with exit code 0 (NormalExit)'',
                    persist_state_for ''primary'' off, monitor_on_shutdown]\<rparr>)
   \<and> handle_finished 0 ''NormalExit'' (example_vm\<lparr>state := starting\<rparr>)
     = Waiting (example_vm\<lparr>state := starting,
          saved_error_msg := ''primary: shutdown called while starting'',
          calls := [mpl_log level_info ''primary'' ''process finished with exit code 0 (NormalExit)'',
                    printf [CHR ''E'', CHR ''H'', CHR ''?'', CHR ''?'', CHR 0x0A]]\<rparr>)
   \<and> handle_finished 0 ''NormalExit'' (example_vm\<lparr>update_shutdown_status := False\<rparr>)
     = Returned (example_vm\<lparr>update_shutdown_status := False,
          calls := [mpl_log level_info ''primary'' ''process finished with exit code 0 (NormalExit)'']\<rparr>)
   \<and> on_shutdown_wake (example_vm\<lparr>state := off\<rparr>)
     = Returned (example_vm\<lparr>state := off, ip := None,
          calls := [persist_state_for ''primary'' off, monitor_on_shutdown]\<rparr>)"
  using finished_and_on_shutdown [of example_vm 0 "''NormalExit''"]
    finished_and_on_shutdown [of "example_vm\<lparr>state := starting\<rparr>" 0 "''NormalExit''"]
    finished_and_on_shutdown [of "example_vm\<lparr>update_shutdown_status := False\<rparr>" 0 "''NormalExit''"]
    finished_and_on_shutdown [of "example_vm\<lparr>state := off\<rparr>"]
    finished_and_on_shutdown [of "example_vm\<lparr>calls :=
        [mpl_log level_info ''primary'' ''process finished with exit code 0 (NormalExit)'']\<rparr>"]
    finished_and_on_shutdown [of "example_vm\<lparr>state := starting, calls :=
        [mpl_log level_info ''primary'' ''process finished with exit code 0 (NormalExit)'']\<rparr>"]
  by (simp add: example_vm_def show_int_zero)

subsection \<open>The command version in the metadata\<close>

text \<open>
  C6. \<^verbatim>\<open>get_vm_command_version\<close> returns the value of \<^verbatim>\<open>vm_command_version\<close> when the key
  is present (the number the metadata holds there; Qt reads a value that is not a whole
  number as 0); when the key is absent it returns 1 if \<^verbatim>\<open>use_cdrom\<close> is present and
  true, and 0 otherwise. The metadata written at a fresh start reads back as version 1.
\<close>

theorem get_vm_command_version_policy:
  "(map_of metadata ''vm_command_version'' = Some (JDouble (of_int n))
      \<and> - 2147483648 \<le> n \<and> n \<le> 2147483647 \<longrightarrow> get_vm_command_version metadata = n)
   \<and> (\<forall>v. map_of metadata ''vm_command_version'' = Some v \<longrightarrow>
         get_vm_command_version metadata = toInt v)
   \<and> (map_of metadata ''vm_command_version'' = None
        \<and> map_of metadata ''use_cdrom'' = Some (JBool True) \<longrightarrow> get_vm_command_version metadata = 1)
   \<and> (map_of metadata ''vm_command_version'' = None
        \<and> map_of metadata ''use_cdrom'' \<noteq> Some (JBool True) \<longrightarrow> get_vm_command_version metadata = 0)
   \<and> get_vm_command_version (generate_metadata host) = 1"
proof -
  have written: "map_of (generate_metadata host) ''vm_command_version'' = Some (JDouble 1)"
    by (simp add: generate_metadata_def insert_value_def from_QString_def machine_type_key_def
        vm_command_version_key_def latest_vm_command_version_def)
  have "get_vm_command_version (generate_metadata host) = 1"
    using written
    by (simp add: get_vm_command_version_def contains_key_def value_of_def
        vm_command_version_key_def toInt_def)
  then show ?thesis
    by (auto simp: get_vm_command_version_def contains_key_def value_of_def
        vm_command_version_key_def toInt_def toBool_def split: option.splits QJsonValue.splits)
qed

text \<open>The theorem at metadata of the current form, of the legacy form, and empty.\<close>

theorem get_vm_command_version_policy_witness:
  "get_vm_command_version [(''machine_type'', JString ''pc-i440fx-xenial''), (''vm_command_version'', JDouble 1)] = 1
   \<and> get_vm_command_version [(''vm_command_version'', JString ''1'')] = 0
   \<and> get_vm_command_version [(''use_cdrom'', JBool True)] = 1
   \<and> get_vm_command_version [(''use_cdrom'', JBool False)] = 0
   \<and> get_vm_command_version [] = 0"
  using get_vm_command_version_policy
          [of "[(''machine_type'', JString ''pc-i440fx-xenial''), (''vm_command_version'', JDouble 1)]" 1]
        get_vm_command_version_policy [of "[(''vm_command_version'', JString ''1'')]"]
        get_vm_command_version_policy [of "[(''use_cdrom'', JBool True)]"]
        get_vm_command_version_policy [of "[(''use_cdrom'', JBool False)]"]
        get_vm_command_version_policy [of "[]"]
  by (simp add: toInt_def)

subsection \<open>Construction\<close>

text \<open>
  C8. A machine that is constructed starts in the state \<open>suspended\<close> if the output of
  \<^verbatim>\<open>qemu-img snapshot -l <image>\<close> has a line that contains \<^verbatim>\<open>suspend\<close>, and in the state
  \<open>off\<close> otherwise.
\<close>

theorem initial_state_from_snapshot:
  assumes "QemuVirtualMachine_new h desc tap = Inr vm"
  shows "state vm =
    (if \<exists>line \<in> set (qsplit (CHR 0x0A) (qemu_img_snapshot_output h (image_path desc))).
          \<exists>pre suf. line = pre @ ''suspend'' @ suf
     then suspended else off)"
proof -
  have "state vm = (if instance_image_has_snapshot (qemu_img_snapshot_output h (image_path desc))
                    then suspended else off)"
    using assms by (auto simp: QemuVirtualMachine_new_def Let_def split: if_splits)
  then show ?thesis
    by (simp add: instance_image_has_snapshot_def any_line_contains_iff contains_iff suspend_tag_def)
qed

text \<open>The theorem on a host whose image has the snapshot, in the third line of the list.\<close>

theorem initial_state_from_snapshot_witness:
  "QemuVirtualMachine_new example_host example_desc ''tap-0''
     = Inr (example_vm\<lparr>state := suspended, vm_process := None, ip := None\<rparr>)
   \<and> (\<exists>line \<in> set (qsplit (CHR 0x0A) (qemu_img_snapshot_output example_host (image_path example_desc))).
          \<exists>pre suf. line = pre @ ''suspend'' @ suf)
   \<and> state (example_vm\<lparr>state := suspended, vm_process := None, ip := None\<rparr>) = suspended"
proof -
  have "''1 suspend 104M'' = ''1 '' @ ''suspend'' @ '' 104M''" by simp
  then have found: "\<exists>line \<in> set (qsplit (CHR 0x0A)
        (qemu_img_snapshot_output example_host (image_path example_desc))).
      \<exists>pre suf. line = pre @ ''suspend'' @ suf"
    unfolding example_lines by (metis list.set_intros(1,2))
  show ?thesis
    using initial_state_from_snapshot [OF example_construction] example_construction found by simp
qed

text \<open>
  C10. The constructor throws the runtime error "cannot start VM without an image" when
  the image or the cloud-init ISO does not exist; so an object exists only when both
  files do.
\<close>

theorem constructor_needs_both_files:
  "(\<not> file_exists h (image_path desc) \<or> \<not> file_exists h (cloud_init_iso desc)
      \<longrightarrow> QemuVirtualMachine_new h desc tap = Inl (runtime_error ''cannot start VM without an image''))
   \<and> (\<forall>vm. QemuVirtualMachine_new h desc tap = Inr vm
      \<longrightarrow> file_exists h (image_path desc) \<and> file_exists h (cloud_init_iso desc))"
  by (auto simp: QemuVirtualMachine_new_def Let_def)

text \<open>The theorem on a host without the ISO, and on a host with both files.\<close>

theorem constructor_needs_both_files_witness:
  "\<not> file_exists example_host_without_iso (cloud_init_iso example_desc)
   \<and> QemuVirtualMachine_new example_host_without_iso example_desc ''tap-0''
       = Inl (runtime_error ''cannot start VM without an image'')
   \<and> QemuVirtualMachine_new example_host example_desc ''tap-0''
       = Inr (example_vm\<lparr>state := suspended, vm_process := None, ip := None\<rparr>)
   \<and> file_exists example_host (image_path example_desc)
   \<and> file_exists example_host (cloud_init_iso example_desc)"
proof -
  have missing: "\<not> file_exists example_host_without_iso (cloud_init_iso example_desc)"
    by (simp add: example_host_without_iso_def example_desc_def)
  show ?thesis
    using constructor_needs_both_files [of example_host_without_iso example_desc "''tap-0''"]
      constructor_needs_both_files [of example_host example_desc "''tap-0''"]
      missing example_construction
    by simp
qed

subsection \<open>Start\<close>

text \<open>
  C9, as the code has it. \<^verbatim>\<open>start\<close> does nothing when the machine is running; it fails
  with the message "cannot start the instance while suspending" when the machine is
  suspending; and in the other states it fails with "failed to start qemu instance" when
  the child does not come up.
\<close>

theorem start_contract:
  "(state vm = running \<longrightarrow> start inp vm = Returned vm)
   \<and> (state vm = suspending \<longrightarrow>
        start inp vm = Threw (runtime_error ''cannot start the instance while suspending'') vm)
   \<and> (state vm \<noteq> running \<and> state vm \<noteq> suspending \<and> \<not> started inp \<longrightarrow>
        (\<exists>vm'. start inp vm = Threw (runtime_error ''failed to start qemu instance'') vm'))"
  by (auto simp: start_def start_process_def Let_def split: prod.splits)

text \<open>The theorem at a running, a suspending and a suspended machine.\<close>

theorem start_contract_witness:
  "start example_inputs example_vm = Returned example_vm
   \<and> start example_inputs (example_vm\<lparr>state := suspending\<rparr>)
       = Threw (runtime_error ''cannot start the instance while suspending'')
               (example_vm\<lparr>state := suspending\<rparr>)
   \<and> (\<exists>vm'. start example_inputs (example_vm\<lparr>state := suspended\<rparr>)
       = Threw (runtime_error ''failed to start qemu instance'') vm')"
  using start_contract [of example_vm example_inputs]
    start_contract [of "example_vm\<lparr>state := suspending\<rparr>" example_inputs]
    start_contract [of "example_vm\<lparr>state := suspended\<rparr>" example_inputs]
  by (simp add: example_vm_def example_inputs_def)

text \<open>The message of the claim is not the one the code throws.\<close>

theorem start_while_suspending_counterexample:
  "start example_inputs (example_vm\<lparr>state := suspending\<rparr>)
     \<noteq> Threw (runtime_error ''cannot start while suspending'') (example_vm\<lparr>state := suspending\<rparr>)
   \<and> start example_inputs (example_vm\<lparr>state := suspending\<rparr>)
     = Threw (runtime_error ''cannot start the instance while suspending'')
             (example_vm\<lparr>state := suspending\<rparr>)"
  by (simp add: start_def example_vm_def)

subsection \<open>Helper lemmas: reading back what the writer wrote\<close>

lemma char_is: "(c = d) = ((of_char c :: nat) = of_char d)"
  by simp

lemma hexval_hexdig: "n < 16 \<Longrightarrow> hexval (hexdig n) = Some n"
  by (auto simp: hexval_def hexdig_def Let_def)

lemma parse_escaped_char:
  "parseString (escaped_char c @ t) = prepend [c] (parseString t)"
proof -
  let ?u = "of_char c :: nat"
  consider "?u = 34" | "?u = 92" | "?u = 8" | "?u = 12" | "?u = 10" | "?u = 13" | "?u = 9"
    | "?u < 32 \<and> ?u \<noteq> 8 \<and> ?u \<noteq> 12 \<and> ?u \<noteq> 10 \<and> ?u \<noteq> 13 \<and> ?u \<noteq> 9"
    | "32 \<le> ?u \<and> ?u \<noteq> 34 \<and> ?u \<noteq> 92" by linarith
  then show ?thesis
  proof cases
    case 1
    then have "c = CHR 0x22" by (simp add: char_is)
    then show ?thesis by (simp add: escaped_char_def unescape_def)
  next
    case 2
    then have "c = CHR 0x5C" by (simp add: char_is)
    then show ?thesis by (simp add: escaped_char_def unescape_def)
  next
    case 3
    then have "c = CHR 0x08" by (simp add: char_is)
    then show ?thesis by (simp add: escaped_char_def unescape_def)
  next
    case 4
    then have "c = CHR 0x0C" by (simp add: char_is)
    then show ?thesis by (simp add: escaped_char_def unescape_def)
  next
    case 5
    then have "c = CHR 0x0A" by (simp add: char_is)
    then show ?thesis by (simp add: escaped_char_def unescape_def)
  next
    case 6
    then have "c = CHR 0x0D" by (simp add: char_is)
    then show ?thesis by (simp add: escaped_char_def unescape_def)
  next
    case 7
    then have "c = CHR 0x09" by (simp add: char_is)
    then show ?thesis by (simp add: escaped_char_def unescape_def)
  next
    case 8
    then have small: "?u div 16 < 16" "?u mod 16 < 16" by auto
    have esc: "escaped_char c = [CHR 0x5C, CHR ''u'', CHR ''0'', CHR ''0'', hexdig (?u div 16), hexdig (?u mod 16)]"
      using 8 by (simp add: escaped_char_def Let_def)
    have zero: "hexval CHR ''0'' = Some 0" by (simp add: hexval_def)
    have "hex4 [CHR ''0'', CHR ''0'', hexdig (?u div 16), hexdig (?u mod 16)] = Some ?u"
      using small by (simp add: zero hexval_hexdig)
    moreover have "utf8 ?u = Some [c]" using 8 by (simp add: utf8_def)
    ultimately show ?thesis
      by (simp add: esc)
  next
    case 9
    then have "c \<noteq> CHR 0x22" "c \<noteq> CHR 0x5C" by (auto simp: char_is)
    moreover have "escaped_char c = [c]" using 9 by (simp add: escaped_char_def Let_def)
    ultimately show ?thesis by simp
  qed
qed

lemma prepend_Some: "prepend bs (Some (s, rest)) = Some (bs @ s, rest)"
  by (simp add: prepend_def)

lemma parse_escaped_string:
  "parseString (escapedString s @ CHR 0x22 # rest) = Some (s, rest)"
proof (induction s)
  case Nil
  then show ?case by (simp add: escapedString_def)
next
  case (Cons c s)
  have "escapedString (c # s) @ CHR 0x22 # rest
          = escaped_char c @ (escapedString s @ CHR 0x22 # rest)"
    by (simp add: escapedString_def)
  then show ?case
    by (simp only: parse_escaped_char Cons.IH prepend_Some) simp
qed

lemma indentations:
  "indentation 0 = []" "indentation 1 = ''    ''" "indentation (Suc 0) = ''    ''"
  "indentation 2 = ''        ''" "indentation (Suc (Suc 0)) = ''        ''"
  by (simp_all add: indentation_def numeral_eq_Suc)

lemma escaped_execute: "escapedString ''execute'' = ''execute''"
  by (simp add: escapedString_def escaped_char_def)

lemma qmp_execute_text:
  \<open>qmp_execute_json cmd =
     [CHR ''{'', CHR 0x0A] @ ''    "execute": "'' @ escapedString cmd @ [CHR 0x22, CHR 0x0A, CHR ''}'', CHR 0x0A]\<close>
  by (simp add: qmp_execute_json_def toJson_def toJson_format_def insert_value_def
      indentations escaped_execute)

lemma read_qmp_execute:
  "fromJson (qmp_execute_json cmd) = ObjectDocument [(''execute'', JString cmd)]"
  by (simp add: qmp_execute_text fromJson_def eatSpace_def is_space_def prepend_def
      parse_escaped_string make_object_def)

lemma escaped_keys:
  "escapedString ''arguments'' = ''arguments''"
  "escapedString ''command-line'' = ''command-line''"
  "escapedString ''human-monitor-command'' = ''human-monitor-command''"
  by (simp_all add: escapedString_def escaped_char_def)

lemma hmc_text:
  \<open>hmc_to_qmp_json command_line =
     [CHR ''{'', CHR 0x0A] @ ''    "arguments": {'' @ [CHR 0x0A]
     @ ''        "command-line": "'' @ escapedString command_line @ [CHR 0x22, CHR 0x0A]
     @ ''    },'' @ [CHR 0x0A]
     @ ''    "execute": "human-monitor-command"'' @ [CHR 0x0A, CHR ''}'', CHR 0x0A]\<close>
  by (simp add: hmc_to_qmp_json_def read_qmp_execute object_def toJson_def toJson_format_def
      insert_value_def indentations escaped_keys escaped_execute)

lemma read_hmc:
  "fromJson (hmc_to_qmp_json command_line) =
     ObjectDocument [(''arguments'', JObject [(''command-line'', JString command_line)]),
                     (''execute'', JString ''human-monitor-command'')]"
  by (simp add: hmc_text fromJson_def eatSpace_def is_space_def prepend_def
      parse_escaped_string make_object_def)



subsection \<open>Helper lemmas: the handler of standard output\<close>

lemma hd_qsplit: "hd (qsplit sep s) = takeWhile (\<lambda>c. c \<noteq> sep) s"
  using qsplit_nonempty [of sep] by (induction s) (auto split: list.splits)

lemma value_ref_fst:
  "fst (value_ref obj key) = (case map_of obj key of None \<Rightarrow> JNull | Some v \<Rightarrow> v)"
  by (simp add: value_ref_def split: option.splits)

lemma handle_plain:
  "handle_ready_read_standard_output out vm =
     handle_event (qmp_event out)
       (vm\<lparr>calls := calls vm @ [mpl_log level_debug (vm_name vm) (''QMP: '' @ out)]\<rparr>)"
  by (simp add: handle_ready_read_standard_output_def call_def)

lemma parse_simps:
  "eatSpace s = dropWhile is_space s"
  "is_space c = (c = CHR '' '' \<or> c = CHR 0x09 \<or> c = CHR 0x0A \<or> c = CHR 0x0D)"
  "prepend bs r = map_option (\<lambda>(s, rest). (bs @ s, rest)) r"
  "make_object es = foldl (\<lambda>obj e. insert_entry (fst e) (snd e) obj) [] es"
  by (simp_all add: eatSpace_def is_space_def prepend_def make_object_def)

lemma event_reset: \<open>qmp_event ''{"event": "RESET"}'' = JString ''RESET''\<close>
  by (simp add: qmp_event_def fromJson_def parse_simps object_def value_ref_def)

lemma event_unknown: \<open>qmp_event ''{"event": "NMI"}'' = JString ''NMI''\<close>
  by (simp add: qmp_event_def fromJson_def parse_simps object_def value_ref_def)

lemma event_resume: \<open>qmp_event ''{"event": "RESUME"}'' = JString ''RESUME''\<close>
  by (simp add: qmp_event_def fromJson_def parse_simps object_def value_ref_def)

lemma event_none: \<open>qmp_event ''{"return": {}}'' = JNull\<close>
  by (simp add: qmp_event_def fromJson_def parse_simps object_def value_ref_def)

lemma event_second_line:
  \<open>qmp_event (''{"return": {}}'' @ [CHR 0x0A] @ ''{"event": "RESET"}'' @ [CHR 0x0A]) = JNull\<close>
  by (simp add: qmp_event_def fromJson_def parse_simps object_def value_ref_def)

lemma handle_event_string:
  "handle_event (JString s) vm =
     (if s = ''RESET'' \<and> state vm \<noteq> restarting
      then Returned (on_restart (call (mpl_log level_info (vm_name vm) ''VM restarting'') vm))
      else if s = ''POWERDOWN''
      then Returned (call (mpl_log level_info (vm_name vm) ''VM powering down'') vm)
      else if s = ''SHUTDOWN''
      then Returned (call (mpl_log level_info (vm_name vm) ''VM shut down'') vm)
      else if s = ''STOP''
      then Returned (call (mpl_log level_info (vm_name vm) ''VM suspending'') vm)
      else if s = ''RESUME''
      then (if state vm = suspending \<or> state vm = running
            then (case vm_process vm of
                    None \<Rightarrow> NullDereference
                  | Some p \<Rightarrow> Returned (on_suspend (call process_kill
                       (call (mpl_log level_info (vm_name vm) ''VM suspended'') vm))))
            else Returned (call (mpl_log level_info (vm_name vm) ''VM suspended'') vm))
      else Returned vm)"
  unfolding handle_event_def isNull_def toString_def Let_def call_fields
  by simp

lemma handle_event_other:
  "toString ev = None \<Longrightarrow> handle_event ev vm = Returned vm"
  unfolding handle_event_def by simp

lemma handle_event_reset:
  "state vm \<noteq> restarting \<Longrightarrow>
     handle_event (JString ''RESET'') vm
       = Returned (on_restart (call (mpl_log level_info (vm_name vm) ''VM restarting'') vm))"
  by (simp add: handle_event_string)

lemma handle_event_unknown:
  "s \<notin> {''RESET'', ''POWERDOWN'', ''SHUTDOWN'', ''STOP'', ''RESUME''} \<Longrightarrow>
     handle_event (JString s) vm = Returned vm"
  by (simp add: handle_event_string)

lemma handle_event_reset_again:
  "state vm = restarting \<Longrightarrow> handle_event (JString ''RESET'') vm = Returned vm"
  by (simp add: handle_event_string)

lemma on_restart_fields:
  "on_restart vm = vm\<lparr>state := restarting, ip := None,
     calls := calls vm @ [persist_state_for (vm_name vm) restarting, monitor_on_restart (vm_name vm)]\<rparr>"
  by (simp add: on_restart_def update_state_def call_def)

lemma stdout_reset:
  assumes ev: "qmp_event out = JString ''RESET''" and st: "state vm \<noteq> restarting"
  shows "handle_ready_read_standard_output out vm =
          Returned (vm\<lparr>state := restarting, ip := None,
             calls := calls vm @ [mpl_log level_debug (vm_name vm) (''QMP: '' @ out),
                                  mpl_log level_info (vm_name vm) ''VM restarting'',
                                  persist_state_for (vm_name vm) restarting,
                                  monitor_on_restart (vm_name vm)]\<rparr>)"
proof -
  let ?logged = "vm\<lparr>calls := calls vm @ [mpl_log level_debug (vm_name vm) (''QMP: '' @ out)]\<rparr>"
  have "state ?logged \<noteq> restarting" using st by simp
  then have "handle_event (JString ''RESET'') ?logged
       = Returned (on_restart (call (mpl_log level_info (vm_name ?logged) ''VM restarting'') ?logged))"
    by (rule handle_event_reset)
  then show ?thesis
    by (simp only: handle_plain ev on_restart_fields) (simp add: call_def)
qed

lemma stdout_ignored:
  assumes "toString (qmp_event out) \<notin> {Some ''RESET'', Some ''POWERDOWN'', Some ''SHUTDOWN'',
                                           Some ''STOP'', Some ''RESUME''}
           \<or> (qmp_event out = JString ''RESET'' \<and> state vm = restarting)"
  shows "handle_ready_read_standard_output out vm =
          Returned (vm\<lparr>calls := calls vm @ [mpl_log level_debug (vm_name vm) (''QMP: '' @ out)]\<rparr>)"
proof (cases "toString (qmp_event out)")
  case None
  then show ?thesis by (simp only: handle_plain handle_event_other)
next
  case (Some s)
  then have ev: "qmp_event out = JString s"
    by (cases "qmp_event out") (simp_all add: toString_def)
  let ?logged = "vm\<lparr>calls := calls vm @ [mpl_log level_debug (vm_name vm) (''QMP: '' @ out)]\<rparr>"
  consider "s \<notin> {''RESET'', ''POWERDOWN'', ''SHUTDOWN'', ''STOP'', ''RESUME''}"
    | "s = ''RESET''" "state vm = restarting"
    using assms Some ev by auto
  then have "handle_event (JString s) ?logged = Returned ?logged"
  proof cases
    case 1
    then show ?thesis by (rule handle_event_unknown)
  next
    case 2
    have "state ?logged = restarting" using 2 by simp
    then show ?thesis unfolding 2(1) by (rule handle_event_reset_again)
  qed
  then show ?thesis by (simp only: handle_plain ev)
qed

lemma on_suspend_fields:
  "on_suspend vm = vm\<lparr>state := suspended, calls := calls vm @ [monitor_on_suspend]\<rparr>"
  by (simp add: on_suspend_def call_def)


subsection \<open>Shutdown\<close>

text \<open>
  What \<^verbatim>\<open>shutdown\<close> does once \<^verbatim>\<open>start\<close> has created the process object: a suspended
  machine only logs; a machine that is running, in delayed shutdown or unknown, with a
  live child, is sent the QMP command \<^verbatim>\<open>system_powerdown\<close> (the three lines that
  \<^verbatim>\<open>toJson()\<close> writes for it) and waited for; in every other case the child is killed and
  waited for, and \<^verbatim>\<open>update_shutdown_status\<close> is cleared when the machine is \<open>starting\<close>.
\<close>

lemma system_powerdown_text:
  \<open>qmp_execute_json ''system_powerdown'' =
     [CHR ''{'', CHR 0x0A] @ ''    "execute": "system_powerdown"'' @ [CHR 0x0A, CHR ''}'', CHR 0x0A]\<close>
  by (simp add: qmp_execute_text escapedString_def escaped_char_def)

lemma shutdown_with_process:
  \<open>(state vm = suspended \<longrightarrow>
      shutdown vm = Returned (vm\<lparr>calls := calls vm
         @ [mpl_log level_info (vm_name vm) ''Ignoring shutdown issued while suspended'']\<rparr>))
   \<and> (vm_process vm = Some p \<and> proc_running p
        \<and> (state vm = running \<or> state vm = delayed_shutdown \<or> state vm = unknown) \<longrightarrow>
      shutdown vm = Returned (vm\<lparr>calls := calls vm
         @ [process_write ([CHR ''{'', CHR 0x0A] @ ''    "execute": "system_powerdown"''
                           @ [CHR 0x0A, CHR ''}'', CHR 0x0A]),
            process_wait_for_finished]\<rparr>))
   \<and> (vm_process vm = Some p \<and> state vm \<noteq> suspended
        \<and> \<not> (proc_running p
              \<and> (state vm = running \<or> state vm = delayed_shutdown \<or> state vm = unknown)) \<longrightarrow>
      shutdown vm = Returned (vm\<lparr>update_shutdown_status :=
                                   (if state vm = starting then False else update_shutdown_status vm),
                                 calls := calls vm @ [process_kill, process_wait_for_finished]\<rparr>))\<close>
  unfolding system_powerdown_text [symmetric]
  by (auto simp: shutdown_def shutdown_kill_def call_def Let_def)

lemma example_construction_off:
  "QemuVirtualMachine_new example_host_without_snapshot example_desc ''tap-0''
     = Inr (example_vm\<lparr>state := off, vm_process := None, ip := None\<rparr>)"
  by (simp add: QemuVirtualMachine_new_def instance_image_has_snapshot_def suspend_tag_def
      example_vm_def example_host_without_snapshot_def example_desc_def)

text \<open>
  C4. The claim is what \<^verbatim>\<open>shutdown\<close> is for, and the code falls short of it on a controller
  that was never started. The constructor leaves \<^verbatim>\<open>vm_process\<close> null; only \<^verbatim>\<open>start\<close>
  assigns it. A constructed machine is \<open>off\<close> or \<open>suspended\<close>; when it is \<open>off\<close>, \<^verbatim>\<open>shutdown\<close>
  (and \<^verbatim>\<open>stop\<close>) reaches \<^verbatim>\<open>vm_process->kill()\<close> and dereferences the null pointer,
  where the claim has the child killed and waited for. The destructor tests
  \<^verbatim>\<open>if (vm_process)\<close>, but only after it has called \<^verbatim>\<open>shutdown\<close>.
\<close>

theorem shutdown_before_first_start:
  assumes "QemuVirtualMachine_new h desc tap = Inr vm"
  shows "vm_process vm = None
         \<and> (state vm = off \<or> state vm = suspended)
         \<and> (state vm \<noteq> suspended \<longrightarrow> shutdown vm = NullDereference \<and> stop vm = NullDereference)"
proof -
  have fresh: "vm_process vm = None" and st: "state vm = off \<or> state vm = suspended"
    using assms by (auto simp: QemuVirtualMachine_new_def Let_def split: if_splits)
  have "shutdown vm = NullDereference" if "state vm \<noteq> suspended"
    using that st fresh by (auto simp: shutdown_def shutdown_kill_def Let_def)
  then show ?thesis using fresh st by (simp add: stop_def)
qed

text \<open>The theorem on a host whose image has no snapshot: the machine is \<open>off\<close>.\<close>

theorem shutdown_before_first_start_witness:
  "QemuVirtualMachine_new example_host_without_snapshot example_desc ''tap-0''
     = Inr (example_vm\<lparr>state := off, vm_process := None, ip := None\<rparr>)
   \<and> state (example_vm\<lparr>state := off, vm_process := None, ip := None\<rparr>) = off
   \<and> shutdown (example_vm\<lparr>state := off, vm_process := None, ip := None\<rparr>) = NullDereference
   \<and> stop (example_vm\<lparr>state := off, vm_process := None, ip := None\<rparr>) = NullDereference"
  using shutdown_before_first_start [OF example_construction_off] example_construction_off
  by simp

subsection \<open>Decoding what QEMU prints\<close>

text \<open>
  C2, as the code has it. The claim reads: every object of a chunk of newline-delimited
  JSON objects is processed. The handler decodes one line of what it read, the bytes
  before the first line feed. If that line is an object whose \<^verbatim>\<open>event\<close> is \<^verbatim>\<open>RESET\<close> and
  the machine is not restarting, \<^verbatim>\<open>on_restart\<close> runs; for \<^verbatim>\<open>POWERDOWN\<close>, \<^verbatim>\<open>SHUTDOWN\<close>,
  \<^verbatim>\<open>STOP\<close>, and for \<^verbatim>\<open>RESUME\<close> outside the states suspending and running, a line is
  logged; for any other event, for an object without \<^verbatim>\<open>event\<close>, and for a line that is
  not an object, nothing happens beyond the debug log, and nothing fails. What follows
  the first line feed is not decoded.
\<close>

theorem stdout_handler_reads_first_line:
  "qmp_event out =
     (case map_of (object (fromJson (takeWhile (\<lambda>c. c \<noteq> CHR 0x0A) out))) ''event'' of
        None \<Rightarrow> JNull | Some v \<Rightarrow> v)
   \<and> (qmp_event out = JString ''RESET'' \<and> state vm \<noteq> restarting \<longrightarrow>
        handle_ready_read_standard_output out vm =
          Returned (vm\<lparr>state := restarting, ip := None,
             calls := calls vm @ [mpl_log level_debug (vm_name vm) (''QMP: '' @ out),
                                  mpl_log level_info (vm_name vm) ''VM restarting'',
                                  persist_state_for (vm_name vm) restarting,
                                  monitor_on_restart (vm_name vm)]\<rparr>))
   \<and> (qmp_event out = JString ''POWERDOWN'' \<longrightarrow>
        handle_ready_read_standard_output out vm =
          Returned (vm\<lparr>calls := calls vm @ [mpl_log level_debug (vm_name vm) (''QMP: '' @ out),
                                            mpl_log level_info (vm_name vm) ''VM powering down'']\<rparr>))
   \<and> (qmp_event out = JString ''SHUTDOWN'' \<longrightarrow>
        handle_ready_read_standard_output out vm =
          Returned (vm\<lparr>calls := calls vm @ [mpl_log level_debug (vm_name vm) (''QMP: '' @ out),
                                            mpl_log level_info (vm_name vm) ''VM shut down'']\<rparr>))
   \<and> (qmp_event out = JString ''STOP'' \<longrightarrow>
        handle_ready_read_standard_output out vm =
          Returned (vm\<lparr>calls := calls vm @ [mpl_log level_debug (vm_name vm) (''QMP: '' @ out),
                                            mpl_log level_info (vm_name vm) ''VM suspending'']\<rparr>))
   \<and> (qmp_event out = JString ''RESUME'' \<and> state vm \<noteq> suspending \<and> state vm \<noteq> running \<longrightarrow>
        handle_ready_read_standard_output out vm =
          Returned (vm\<lparr>calls := calls vm @ [mpl_log level_debug (vm_name vm) (''QMP: '' @ out),
                                            mpl_log level_info (vm_name vm) ''VM suspended'']\<rparr>))
   \<and> (toString (qmp_event out) \<notin> {Some ''RESET'', Some ''POWERDOWN'', Some ''SHUTDOWN'',
                                        Some ''STOP'', Some ''RESUME''}
        \<or> (qmp_event out = JString ''RESET'' \<and> state vm = restarting) \<longrightarrow>
        handle_ready_read_standard_output out vm =
          Returned (vm\<lparr>calls := calls vm @ [mpl_log level_debug (vm_name vm) (''QMP: '' @ out)]\<rparr>))"
proof (intro conjI impI)
  show "qmp_event out =
     (case map_of (object (fromJson (takeWhile (\<lambda>c. c \<noteq> CHR 0x0A) out))) ''event'' of
        None \<Rightarrow> JNull | Some v \<Rightarrow> v)"
    by (simp add: qmp_event_def hd_qsplit value_ref_fst)
next
  assume "qmp_event out = JString ''RESET'' \<and> state vm \<noteq> restarting"
  then show "handle_ready_read_standard_output out vm =
          Returned (vm\<lparr>state := restarting, ip := None,
             calls := calls vm @ [mpl_log level_debug (vm_name vm) (''QMP: '' @ out),
                                  mpl_log level_info (vm_name vm) ''VM restarting'',
                                  persist_state_for (vm_name vm) restarting,
                                  monitor_on_restart (vm_name vm)]\<rparr>)"
    using stdout_reset by blast
next
  assume "qmp_event out = JString ''POWERDOWN''"
  then show "handle_ready_read_standard_output out vm =
          Returned (vm\<lparr>calls := calls vm @ [mpl_log level_debug (vm_name vm) (''QMP: '' @ out),
                                            mpl_log level_info (vm_name vm) ''VM powering down'']\<rparr>)"
    by (simp add: handle_plain handle_event_string call_def)
next
  assume "qmp_event out = JString ''SHUTDOWN''"
  then show "handle_ready_read_standard_output out vm =
          Returned (vm\<lparr>calls := calls vm @ [mpl_log level_debug (vm_name vm) (''QMP: '' @ out),
                                            mpl_log level_info (vm_name vm) ''VM shut down'']\<rparr>)"
    by (simp add: handle_plain handle_event_string call_def)
next
  assume "qmp_event out = JString ''STOP''"
  then show "handle_ready_read_standard_output out vm =
          Returned (vm\<lparr>calls := calls vm @ [mpl_log level_debug (vm_name vm) (''QMP: '' @ out),
                                            mpl_log level_info (vm_name vm) ''VM suspending'']\<rparr>)"
    by (simp add: handle_plain handle_event_string call_def)
next
  assume "qmp_event out = JString ''RESUME'' \<and> state vm \<noteq> suspending \<and> state vm \<noteq> running"
  then show "handle_ready_read_standard_output out vm =
          Returned (vm\<lparr>calls := calls vm @ [mpl_log level_debug (vm_name vm) (''QMP: '' @ out),
                                            mpl_log level_info (vm_name vm) ''VM suspended'']\<rparr>)"
    by (simp add: handle_plain handle_event_string call_def)
next
  assume "toString (qmp_event out) \<notin> {Some ''RESET'', Some ''POWERDOWN'', Some ''SHUTDOWN'',
                                        Some ''STOP'', Some ''RESUME''}
        \<or> (qmp_event out = JString ''RESET'' \<and> state vm = restarting)"
  then show "handle_ready_read_standard_output out vm =
          Returned (vm\<lparr>calls := calls vm @ [mpl_log level_debug (vm_name vm) (''QMP: '' @ out)]\<rparr>)"
    by (rule stdout_ignored)
qed

text \<open>The theorem at a reset, at an event the handler does not know, and at a reply.\<close>

theorem stdout_handler_reads_first_line_witness:
  \<open>handle_ready_read_standard_output ''{"event": "RESET"}'' example_vm
    = Returned (example_vm\<lparr>state := restarting, ip := None,
         calls := [mpl_log level_debug ''primary'' ''QMP: {"event": "RESET"}'',
                   mpl_log level_info ''primary'' ''VM restarting'',
                   persist_state_for ''primary'' restarting,
                   monitor_on_restart ''primary'']\<rparr>)
   \<and> handle_ready_read_standard_output ''{"event": "NMI"}'' example_vm
    = Returned (example_vm\<lparr>calls := [mpl_log level_debug ''primary'' ''QMP: {"event": "NMI"}'']\<rparr>)
   \<and> handle_ready_read_standard_output ''{"return": {}}'' example_vm
    = Returned (example_vm\<lparr>calls := [mpl_log level_debug ''primary'' ''QMP: {"return": {}}'']\<rparr>)\<close>
proof -
  have st: "state example_vm \<noteq> restarting" and nm: "vm_name example_vm = ''primary''"
    and cs: "calls example_vm = []"
    by (simp_all add: example_vm_def)
  show ?thesis
    using stdout_handler_reads_first_line [of \<open>''{"event": "RESET"}''\<close> example_vm]
      stdout_handler_reads_first_line [of \<open>''{"event": "NMI"}''\<close> example_vm]
      stdout_handler_reads_first_line [of \<open>''{"return": {}}''\<close> example_vm]
    unfolding event_reset event_unknown event_none
    by (simp add: st nm cs toString_def)
qed

text \<open>
  The claim as written fails on a chunk of two objects: the reset in the second line
  is dropped, though the same object alone restarts the machine.
\<close>

theorem second_object_dropped_counterexample:
  \<open>handle_ready_read_standard_output
      (''{"return": {}}'' @ [CHR 0x0A] @ ''{"event": "RESET"}'' @ [CHR 0x0A]) example_vm
    = Returned (example_vm\<lparr>calls := [mpl_log level_debug ''primary''
         (''QMP: {"return": {}}'' @ [CHR 0x0A] @ ''{"event": "RESET"}'' @ [CHR 0x0A])]\<rparr>)
   \<and> handle_ready_read_standard_output ''{"event": "RESET"}'' example_vm
    = Returned (example_vm\<lparr>state := restarting, ip := None,
         calls := [mpl_log level_debug ''primary'' ''QMP: {"event": "RESET"}'',
                   mpl_log level_info ''primary'' ''VM restarting'',
                   persist_state_for ''primary'' restarting,
                   monitor_on_restart ''primary'']\<rparr>)\<close>
proof -
  let ?chunk = \<open>''{"return": {}}'' @ [CHR 0x0A] @ ''{"event": "RESET"}'' @ [CHR 0x0A]\<close>
  have st: "state example_vm \<noteq> restarting" and nm: "vm_name example_vm = ''primary''"
    and cs: "calls example_vm = []"
    by (simp_all add: example_vm_def)
  have "toString (qmp_event ?chunk) \<notin> {Some ''RESET'', Some ''POWERDOWN'', Some ''SHUTDOWN'',
      Some ''STOP'', Some ''RESUME''}"
    unfolding event_second_line by (simp add: toString_def)
  then have "toString (qmp_event ?chunk) \<notin> {Some ''RESET'', Some ''POWERDOWN'', Some ''SHUTDOWN'',
      Some ''STOP'', Some ''RESUME''}
      \<or> (qmp_event ?chunk = JString ''RESET'' \<and> state example_vm = restarting)"
    by (rule disjI1)
  then have "handle_ready_read_standard_output ?chunk example_vm =
      Returned (example_vm\<lparr>calls := calls example_vm
         @ [mpl_log level_debug (vm_name example_vm) (''QMP: '' @ ?chunk)]\<rparr>)"
    by (rule stdout_ignored)
  then show ?thesis
    using stdout_reset [OF event_reset st]
    by (simp add: nm cs)
qed

subsection \<open>The end of a suspend\<close>

text \<open>
  C5, as the code has it. When the event \<^verbatim>\<open>RESUME\<close> arrives while the machine is suspending
  or running, the handler kills the child, sets the state to \<open>suspended\<close> and calls the
  monitor's \<^verbatim>\<open>on_suspend\<close>; these are all the calls it makes, so the state \<open>suspended\<close>
  is not persisted by it.
\<close>

theorem resume_event_suspends:
  "qmp_event out = JString ''RESUME'' \<and> (state vm = suspending \<or> state vm = running)
     \<and> vm_process vm = Some p \<longrightarrow>
   handle_ready_read_standard_output out vm =
     Returned (vm\<lparr>state := suspended,
        calls := calls vm @ [mpl_log level_debug (vm_name vm) (''QMP: '' @ out),
                             mpl_log level_info (vm_name vm) ''VM suspended'',
                             process_kill, monitor_on_suspend]\<rparr>)"
  by (auto simp: handle_plain handle_event_string on_suspend_fields call_def)

text \<open>The theorem at a running machine.\<close>

theorem resume_event_suspends_witness:
  \<open>handle_ready_read_standard_output ''{"event": "RESUME"}'' example_vm =
     Returned (example_vm\<lparr>state := suspended,
        calls := [mpl_log level_debug ''primary'' ''QMP: {"event": "RESUME"}'',
                  mpl_log level_info ''primary'' ''VM suspended'',
                  process_kill, monitor_on_suspend]\<rparr>)\<close>
proof -
  have st: "state example_vm = running" and nm: "vm_name example_vm = ''primary''"
    and cs: "calls example_vm = []" and pr: "vm_process example_vm = Some example_process"
    by (simp_all add: example_vm_def)
  show ?thesis
    using resume_event_suspends [of \<open>''{"event": "RESUME"}''\<close> example_vm example_process]
    by (simp add: event_resume st nm cs pr)
qed

text \<open>The claim as written fails there: no call persists the state \<open>suspended\<close>.\<close>

theorem suspended_not_persisted_counterexample:
  \<open>handle_ready_read_standard_output ''{"event": "RESUME"}'' example_vm =
     Returned (example_vm\<lparr>state := suspended,
        calls := [mpl_log level_debug ''primary'' ''QMP: {"event": "RESUME"}'',
                  mpl_log level_info ''primary'' ''VM suspended'',
                  process_kill, monitor_on_suspend]\<rparr>)
   \<and> persist_state_for ''primary'' suspended
       \<notin> set [mpl_log level_debug ''primary'' ''QMP: {"event": "RESUME"}'',
                mpl_log level_info ''primary'' ''VM suspended'',
                process_kill, monitor_on_suspend]\<close>
proof -
  have st: "state example_vm = running" and nm: "vm_name example_vm = ''primary''"
    and cs: "calls example_vm = []" and pr: "vm_process example_vm = Some example_process"
    by (simp_all add: example_vm_def)
  have \<open>handle_event (JString ''RESUME'')
          (example_vm\<lparr>calls := [mpl_log level_debug ''primary'' ''QMP: {"event": "RESUME"}'']\<rparr>)
        = Returned (example_vm\<lparr>state := suspended,
            calls := [mpl_log level_debug ''primary'' ''QMP: {"event": "RESUME"}'',
                  mpl_log level_info ''primary'' ''VM suspended'',
                  process_kill, monitor_on_suspend]\<rparr>)\<close>
    by (simp add: handle_event_string on_suspend_fields call_def st nm pr)
  then show ?thesis
    by (simp add: handle_plain event_resume nm cs)
qed

subsection \<open>Encoding and decoding QMP commands\<close>

text \<open>
  C7, as the code has it. For every command name, \<^verbatim>\<open>qmp_execute_json\<close> writes the object
  with the one entry \<^verbatim>\<open>execute\<close> in the indented format of \<^verbatim>\<open>toJson()\<close>, which is three
  lines and not one; \<^verbatim>\<open>hmc_to_qmp_json\<close> writes the object with \<^verbatim>\<open>arguments\<close> and
  \<^verbatim>\<open>execute\<close> over six lines. Reading either text back gives an object whose \<^verbatim>\<open>execute\<close>
  is the command and whose \<^verbatim>\<open>arguments\<close> are the ones supplied.
\<close>

theorem qmp_encoding_round_trip:
  \<open>qmp_execute_json cmd =
      [CHR ''{'', CHR 0x0A] @ ''    "execute": "'' @ escapedString cmd
      @ [CHR 0x22, CHR 0x0A, CHR ''}'', CHR 0x0A]
   \<and> object (fromJson (qmp_execute_json cmd)) = [(''execute'', JString cmd)]
   \<and> hmc_to_qmp_json command_line =
      [CHR ''{'', CHR 0x0A] @ ''    "arguments": {'' @ [CHR 0x0A]
      @ ''        "command-line": "'' @ escapedString command_line @ [CHR 0x22, CHR 0x0A]
      @ ''    },'' @ [CHR 0x0A]
      @ ''    "execute": "human-monitor-command"'' @ [CHR 0x0A, CHR ''}'', CHR 0x0A]
   \<and> object (fromJson (hmc_to_qmp_json command_line)) =
       [(''arguments'', JObject [(''command-line'', JString command_line)]),
        (''execute'', JString ''human-monitor-command'')]\<close>
proof (intro conjI)
  show "object (fromJson (qmp_execute_json cmd)) = [(''execute'', JString cmd)]"
    by (simp add: read_qmp_execute object_def)
  show "object (fromJson (hmc_to_qmp_json command_line)) =
       [(''arguments'', JObject [(''command-line'', JString command_line)]),
        (''execute'', JString ''human-monitor-command'')]"
    by (simp add: read_hmc object_def)
qed (rule qmp_execute_text hmc_text)+

text \<open>The theorem at the commands the controller sends.\<close>

theorem qmp_encoding_round_trip_witness:
  \<open>object (fromJson (qmp_execute_json ''system_powerdown'')) = [(''execute'', JString ''system_powerdown'')]
   \<and> object (fromJson (hmc_to_qmp_json ''savevm suspend'')) =
       [(''arguments'', JObject [(''command-line'', JString ''savevm suspend'')]),
        (''execute'', JString ''human-monitor-command'')]\<close>
  using qmp_encoding_round_trip [of \<open>''system_powerdown''\<close> \<open>''savevm suspend''\<close>,
      THEN conjunct2, THEN conjunct1]
    qmp_encoding_round_trip [of \<open>''system_powerdown''\<close> \<open>''savevm suspend''\<close>,
      THEN conjunct2, THEN conjunct2, THEN conjunct2]
  by (rule conjI)

text \<open>The claim as written fails at \<^verbatim>\<open>system_powerdown\<close>: the text has three lines.\<close>

theorem qmp_encoding_multi_line_counterexample:
  \<open>qmp_execute_json ''system_powerdown'' =
      [CHR ''{'', CHR 0x0A] @ ''    "execute": "system_powerdown"'' @ [CHR 0x0A, CHR ''}'', CHR 0x0A]
   \<and> \<not> single_line (qmp_execute_json ''system_powerdown'')\<close>
  by (simp add: qmp_execute_text single_line_def escapedString_def escaped_char_def)

end
